theory Spec2Isabelle
  imports Main "HOL-Library.Sublist"
begin

section \<open>Python values, exceptions and results\<close>

text \<open>
  The data handed to the engine is a nested structure of maps, lists and scalars. The
  scalars modelled are \<open>None\<close>, integers and strings; a map is an association list in
  insertion order (the order in which a Python dict iterates).
\<close>

datatype pyval =
    PNone
  | PInt int
  | PStr string
  | PList "pyval list"
  | PMap "(pyval \<times> pyval) list"

text \<open>The exceptions the engine can meet, and the result of a call.\<close>

datatype exn = KeyError | IndexError | TypeError | AttributeError | ValueError string

text \<open>
  \<open>Return x\<close>: the call returned \<open>x\<close>. \<open>Raise e\<close>: it raised \<open>e\<close>. \<open>OutOfFuel\<close>: the
  recursion budget of the model ran out (includes may refer to themselves, so the
  recursion of the source need not end).
\<close>

datatype 'a outcome = Return 'a | Raise exn | OutOfFuel

fun bind :: "'a outcome \<Rightarrow> ('a \<Rightarrow> 'b outcome) \<Rightarrow> 'b outcome" where
  "bind (Return x) f = f x"
| "bind (Raise e) f = Raise e"
| "bind OutOfFuel f = OutOfFuel"

text \<open>A \<open>for\<close> loop collecting the results of its iterations; the first failure ends it.\<close>

fun sequence :: "'a outcome list \<Rightarrow> 'a list outcome" where
  "sequence [] = Return []"
| "sequence (r # rs) = bind r (\<lambda>x. bind (sequence rs) (\<lambda>xs. Return (x # xs)))"

definition sq :: string where
  "sq = [CHR 0x27]"

definition dq :: string where
  "dq = [CHR 0x22]"

section \<open>Paths\<close>

text \<open>
  Modelled from the spec: the class \<open>DataPath\<close> (module \<open>datapath\<close>) is an ordered sequence
  of segments, \<open>DataPath()\<close> is the empty one, \<open>DataPath(key)\<close> has the one segment \<open>key\<close>,
  and \<open>+\<close> concatenates. Its rendering \<open>str(path)\<close> is the field \<open>str_path\<close> of the
  environment below.
\<close>

type_synonym path = "pyval list"

definition DataPath :: "pyval \<Rightarrow> path" where
  "DataPath key = [key]"

text \<open>\<open>s.split('/')\<close> of Python: the pieces between the slashes, at least one piece.\<close>

fun split_slash :: "string \<Rightarrow> string list" where
  "split_slash [] = [[]]"
| "split_slash (c # cs) =
     (if c = CHR ''/'' then [] # split_slash cs
      else (case split_slash cs of
              [] \<Rightarrow> [[c]]
            | w # ws \<Rightarrow> (c # w) # ws))"

section \<open>Validators and schema trees\<close>

text \<open>
  Modelled from the spec: the validator classes (module \<open>validators\<close>) are a closed
  variant type. Every validator has \<open>is_optional\<close>, \<open>can_be_none\<close> and its own
  \<open>validate(value)\<close>, which returns unprefixed error strings (the field \<open>check\<close>).
  \<open>Map\<close>, \<open>List\<close> and \<open>Any\<close> carry \<open>validators\<close>; \<open>Include\<close> carries \<open>include_name\<close> and
  \<open>strict\<close>; \<open>IncludeIf\<close> carries \<open>if_path\<close>, \<open>if_include_test\<close>, \<open>then_include\<close>,
  \<open>else_include\<close> and \<open>strict\<close>.
\<close>

datatype validator =
    Validator (is_optional: bool) (can_be_none: bool) (check: "pyval \<Rightarrow> string list")
              (kind: vkind)
and vkind =
    Primitive
  | Map "validator list"
  | List "validator list"
  | Any "validator list"
  | Include string "bool option"
  | IncludeIf string string string "string option" "bool option"

text \<open>\<open>isinstance(validator, val.IncludeIf)\<close> for a compiled validator.\<close>

fun is_IncludeIf :: "vkind \<Rightarrow> bool" where
  "is_IncludeIf (IncludeIf p t th el s) = True"
| "is_IncludeIf _ = False"

text \<open>The attribute \<open>validator.validators\<close>; \<open>None\<close> where the class has none.\<close>

fun validators :: "validator \<Rightarrow> validator list option" where
  "validators (Validator opt nul chk (Map vs)) = Some vs"
| "validators (Validator opt nul chk (List vs)) = Some vs"
| "validators (Validator opt nul chk (Any vs)) = Some vs"
| "validators _ = None"

text \<open>
  A compiled schema tree: a literal map or list of the raw schema stays a container
  (\<open>CMap\<close>, \<open>CList\<close>), every leaf string has become a validator.
\<close>

datatype node =
    CMap "(pyval \<times> node) list"
  | CList "node list"
  | Leaf validator

text \<open>
  A \<open>Schema\<close> object: its name, its compiled tree \<open>_schema\<close>, and the attribute
  \<open>_root_data\<close>, which exists only once \<open>validate\<close> has been called on the object
  (\<open>None\<close>: the attribute is not there). The registry \<open>includes\<close> is one dict shared by a
  schema and all the schemas added to it, so it is passed alongside.
\<close>

record schema =
  schema_name :: string
  schema_tree :: node
  root_data :: "pyval option"

type_synonym registry = "string \<Rightarrow> schema option"

text \<open>
  What the engine takes from outside this repository's \<open>schema\<close> module: the rendering of a
  path (\<open>'%s' % path\<close>), the rendering of a data value (\<open>'%s' % data\<close>),
  \<open>dpath.util.get\<close>, which raises \<open>KeyError\<close> when the path does not resolve, and the
  order in which Python iterates a set of keys (the order of their hashes).
\<close>

record ext =
  str_path :: "path \<Rightarrow> string"
  str_data :: "pyval \<Rightarrow> string"
  dpath_get :: "pyval \<Rightarrow> string \<Rightarrow> pyval outcome"
  set_order :: "pyval list \<Rightarrow> pyval list"

section \<open>The helpers of module util\<close>

text \<open>
  Modelled from the spec: \<open>util.is_map\<close>, \<open>util.is_list\<close>, \<open>util.get_keys\<close> and
  \<open>util.get_iter\<close>. A string is not a list. \<open>get_keys\<close> gives the keys of a map and the
  indices of a list, and \<open>None\<close> for anything else; \<open>get_iter\<close> gives the items of a map
  and the enumeration of a list. They are used on data and on schema nodes alike.
\<close>

fun is_map :: "pyval \<Rightarrow> bool" where
  "is_map (PMap kvs) = True"
| "is_map _ = False"

fun is_list :: "pyval \<Rightarrow> bool" where
  "is_list (PList xs) = True"
| "is_list _ = False"

definition indices :: "'a list \<Rightarrow> pyval list" where
  "indices xs = map (\<lambda>i. PInt (int i)) [0..<length xs]"

fun get_keys :: "pyval \<Rightarrow> pyval list option" where
  "get_keys (PMap kvs) = Some (map fst kvs)"
| "get_keys (PList xs) = Some (indices xs)"
| "get_keys _ = None"

fun is_map_node :: "node \<Rightarrow> bool" where
  "is_map_node (CMap kvs) = True"
| "is_map_node _ = False"

fun is_list_node :: "node \<Rightarrow> bool" where
  "is_list_node (CList ns) = True"
| "is_list_node _ = False"

fun get_keys_node :: "node \<Rightarrow> pyval list option" where
  "get_keys_node (CMap kvs) = Some (map fst kvs)"
| "get_keys_node (CList ns) = Some (indices ns)"
| "get_keys_node (Leaf v) = None"

fun get_iter_node :: "node \<Rightarrow> (pyval \<times> node) list option" where
  "get_iter_node (CMap kvs) = Some kvs"
| "get_iter_node (CList ns) = Some (zip (indices ns) ns)"
| "get_iter_node (Leaf v) = None"

text \<open>
  \<open>isinstance(validator, val.IncludeIf)\<close> and
  \<open>isinstance(validator, val.Validator) and validator.is_optional\<close> for a child of a
  container, which is a validator or a container itself.
\<close>

fun node_is_IncludeIf :: "node \<Rightarrow> bool" where
  "node_is_IncludeIf (Leaf v) = is_IncludeIf (kind v)"
| "node_is_IncludeIf _ = False"

fun node_is_optional :: "node \<Rightarrow> bool" where
  "node_is_optional (Leaf v) = is_optional v"
| "node_is_optional _ = False"

text \<open>
  \<open>data[key]\<close>: a dict raises \<open>KeyError\<close> for a key it does not have, a list or a string
  raises \<open>IndexError\<close> out of range (negative indices count from the end), and anything
  else cannot be subscripted.
\<close>

definition index_list :: "'a list \<Rightarrow> int \<Rightarrow> 'a outcome" where
  "index_list xs i =
     (if 0 \<le> i \<and> i < int (length xs) then Return (xs ! nat i)
      else if i < 0 \<and> - int (length xs) \<le> i then Return (xs ! nat (int (length xs) + i))
      else Raise IndexError)"

fun hashable :: "pyval \<Rightarrow> bool" where
  "hashable (PList xs) = False"
| "hashable (PMap kvs) = False"
| "hashable _ = True"

fun getitem :: "pyval \<Rightarrow> pyval \<Rightarrow> pyval outcome" where
  "getitem (PMap kvs) key =
     (if \<not> hashable key then Raise TypeError
      else (case map_of kvs key of None \<Rightarrow> Raise KeyError | Some v \<Rightarrow> Return v))"
| "getitem (PList xs) (PInt i) = index_list xs i"
| "getitem (PStr s) (PInt i) = bind (index_list s i) (\<lambda>c. Return (PStr [c]))"
| "getitem _ _ = Raise TypeError"

section \<open>The validation engine\<close>

text \<open>\<open>_validate_primitive\<close>: the validator's own errors, each prefixed with the path.\<close>

definition validate_primitive :: "ext \<Rightarrow> validator \<Rightarrow> pyval \<Rightarrow> path \<Rightarrow> string list" where
  "validate_primitive X validator data path =
     map (\<lambda>error. (str_path X path @ '': '') @ error) (check validator data)"

text \<open>
  The iteration of a set built from \<open>elements\<close>. The members come in the order that
  \<open>set_order\<close> gives them; whatever \<open>set_order\<close> answers, every member is visited, and
  visited once.
\<close>

definition iterate_set :: "ext \<Rightarrow> pyval list \<Rightarrow> pyval list" where
  "iterate_set X elements =
     (let members = remdups elements;
          ordered = filter (\<lambda>key. key \<in> set members) (remdups (set_order X members))
      in ordered @ filter (\<lambda>key. key \<notin> set ordered) members)"

text \<open>
  The strict part of \<open>_validate_static_map_list\<close>: one error for every key of the data
  that is not a key of the schema node, in the order in which the set difference
  \<open>data_keys - validator_keys\<close> is iterated.
\<close>

definition unexpected_elements ::
  "ext \<Rightarrow> node \<Rightarrow> pyval \<Rightarrow> path \<Rightarrow> bool \<Rightarrow> string list outcome" where
  "unexpected_elements X validator data path strict =
     (if strict then
        (case get_keys data of
           None \<Rightarrow> Raise TypeError
         | Some data_keys \<Rightarrow>
             (case get_keys_node validator of
                None \<Rightarrow> Raise TypeError
              | Some validator_keys \<Rightarrow>
                  Return (map (\<lambda>key. str_path X (path @ DataPath key) @ '': Unexpected element'')
                            (iterate_set X
                               (filter (\<lambda>key. key \<notin> set validator_keys) data_keys)))))
      else Return [])"

text \<open>
  The end of the loops of \<open>_validate_map_list\<close> and \<open>_validate_any\<close>: \<open>errs\<close> holds the
  result of every sub-validator; the non-empty ones are \<open>sub_errors\<close>, and they count
  only when every sub-validator failed.
\<close>

definition all_failed :: "nat \<Rightarrow> 'a list list \<Rightarrow> 'a list" where
  "all_failed n_validators errs =
     (let sub_errors = filter (\<lambda>err. err \<noteq> []) errs
      in if length sub_errors = n_validators then concat sub_errors else [])"

text \<open>
  The first half of \<open>_validate_include_if\<close>: the lookup of \<open>if_path\<close> in \<open>self._root_data\<close>.
  \<open>Inl errors\<close> is the early return under strict mode, \<open>Inr if_data\<close> the value to test.
\<close>

definition lookup_if_data ::
  "ext \<Rightarrow> pyval option \<Rightarrow> string \<Rightarrow> bool \<Rightarrow> (string list + pyval) outcome" where
  "lookup_if_data X root if_path strict =
     (case root of
        None \<Rightarrow> Raise AttributeError
      | Some document \<Rightarrow>
          (case dpath_get X document if_path of
             Return if_data \<Rightarrow> Return (Inr if_data)
           | Raise e \<Rightarrow>
               (if e = KeyError then
                  (if strict then Return (Inl [''path '' @ sq @ if_path @ sq @ '' does not exist.''])
                   else Return (Inr (PMap [])))
                else Raise e)
           | OutOfFuel \<Rightarrow> OutOfFuel))"

definition not_defined :: "string \<Rightarrow> string" where
  "not_defined include_name = ''Include '' @ sq @ include_name @ sq @ '' has not been defined.''"

text \<open>
  The recursive methods of \<open>Schema\<close>. Every one of them reaches the others only through
  \<open>_validate\<close>, so each is written over the \<open>_validate\<close> it calls (\<open>self_validate\<close>), and
  \<open>validate_node\<close>, which is \<open>_validate\<close>, ties the knot with a recursion budget. \<open>X\<close> is
  the environment, \<open>incs\<close> the shared registry \<open>self.includes\<close>, and \<open>root\<close> the attribute
  \<open>self._root_data\<close> of the schema object the method runs on: a call of
  \<open>include_schema._validate\<close> runs on the included schema, with its \<open>_root_data\<close>.
\<close>

type_synonym validate_fn =
  "pyval option \<Rightarrow> node \<Rightarrow> pyval \<Rightarrow> path \<Rightarrow> bool \<Rightarrow> string list outcome"

definition validate_item ::
  "validate_fn \<Rightarrow> ext \<Rightarrow> pyval option \<Rightarrow> node \<Rightarrow> pyval \<Rightarrow> path \<Rightarrow> bool \<Rightarrow> pyval
   \<Rightarrow> string list outcome" where
  "validate_item self_validate X root validator data path0 strict key =
     (let path = path0 @ DataPath key in
      (case getitem data key of
         Return data_item \<Rightarrow> self_validate root validator data_item path strict
       | Raise e \<Rightarrow>
           (if e = KeyError \<or> e = IndexError then
              (if \<not> node_is_IncludeIf validator then
                 (if node_is_optional validator then Return []
                  else Return [str_path X path @ '': Required field missing''])
               else self_validate root validator PNone path strict)
            else Raise e)
       | OutOfFuel \<Rightarrow> OutOfFuel))"

definition validate_static_map_list ::
  "validate_fn \<Rightarrow> ext \<Rightarrow> pyval option \<Rightarrow> node \<Rightarrow> pyval \<Rightarrow> path \<Rightarrow> bool
   \<Rightarrow> string list outcome" where
  "validate_static_map_list self_validate X root validator data path strict =
     (if is_map_node validator \<and> \<not> is_map data then
        (if data = PNone then Return [str_path X path @ '': Required field missing'']
         else Return [str_path X path @ '' : '' @ sq @ str_data X data @ sq @ '' is not a map''])
      else if is_list_node validator \<and> \<not> is_list data then
        Return [str_path X path @ '' : '' @ sq @ str_data X data @ sq @ '' is not a list'']
      else
        bind (unexpected_elements X validator data path strict) (\<lambda>errors.
          (case get_iter_node validator of
             None \<Rightarrow> Raise TypeError
           | Some items \<Rightarrow>
               bind (sequence (map (\<lambda>(key, sub_validator).
                        validate_item self_validate X root sub_validator data path strict key)
                      items))
                 (\<lambda>item_errors. Return (errors @ concat item_errors)))))"

definition validate_map_list ::
  "validate_fn \<Rightarrow> ext \<Rightarrow> pyval option \<Rightarrow> validator \<Rightarrow> pyval \<Rightarrow> path \<Rightarrow> bool
   \<Rightarrow> string list outcome" where
  "validate_map_list self_validate X root validator data path strict =
     (case validators validator of
        None \<Rightarrow> Raise AttributeError
      | Some vs \<Rightarrow>
          (if vs = [] then Return []
           else
             (case get_keys data of
                None \<Rightarrow> Raise TypeError
              | Some keys \<Rightarrow>
                  bind (sequence (map (\<lambda>key.
                          bind (sequence (map (\<lambda>v.
                                  validate_item self_validate X root (Leaf v) data path strict key)
                                vs))
                            (\<lambda>errs. Return (all_failed (length vs) errs))) keys))
                    (\<lambda>key_errors. Return (concat key_errors)))))"

definition validate_include ::
  "validate_fn \<Rightarrow> registry \<Rightarrow> validator \<Rightarrow> pyval \<Rightarrow> path \<Rightarrow> bool \<Rightarrow> string list outcome" where
  "validate_include self_validate incs validator data path strict =
     (case kind validator of
        Include include_name v_strict \<Rightarrow>
          (case incs include_name of
             None \<Rightarrow> Return [not_defined include_name]
           | Some include_schema \<Rightarrow>
               self_validate (root_data include_schema) (schema_tree include_schema)
                 data path (case v_strict of None \<Rightarrow> strict | Some s \<Rightarrow> s))
      | _ \<Rightarrow> Raise AttributeError)"

text \<open>
  The second half of \<open>_validate_include_if\<close>, from the result \<open>errors\<close> of the condition
  check on: the branch taken, and its validation.
\<close>

definition include_if_branch ::
  "validate_fn \<Rightarrow> ext \<Rightarrow> registry \<Rightarrow> string \<Rightarrow> string option \<Rightarrow> string list
   \<Rightarrow> pyval \<Rightarrow> path \<Rightarrow> bool \<Rightarrow> string list outcome" where
  "include_if_branch self_validate X incs then_include else_include errors data path strict =
     (case (if errors \<noteq> [] then else_include else Some then_include) of
        None \<Rightarrow>
          (if strict \<and> data \<noteq> PNone then Return [str_path X path @ '': Unexpected element'']
           else Return [])
      | Some include_name \<Rightarrow>
          (case incs include_name of
             None \<Rightarrow> Return [not_defined include_name]
           | Some include_schema \<Rightarrow>
               self_validate (root_data include_schema) (schema_tree include_schema)
                 data path strict))"

definition validate_include_if ::
  "validate_fn \<Rightarrow> ext \<Rightarrow> registry \<Rightarrow> pyval option \<Rightarrow> validator \<Rightarrow> pyval \<Rightarrow> path \<Rightarrow> bool
   \<Rightarrow> string list outcome" where
  "validate_include_if self_validate X incs root validator data path strict0 =
     (case kind validator of
        IncludeIf v_if_path if_include_test then_include else_include v_strict \<Rightarrow>
          (let strict = (case v_strict of None \<Rightarrow> strict0 | Some s \<Rightarrow> s);
               if_path = DataPath (PList (map PStr (split_slash v_if_path)))
           in
             (case lookup_if_data X root v_if_path strict of
                Raise e \<Rightarrow> Raise e
              | OutOfFuel \<Rightarrow> OutOfFuel
              | Return (Inl errors) \<Rightarrow> Return errors
              | Return (Inr if_data) \<Rightarrow>
                  (case incs if_include_test of
                     None \<Rightarrow> Return [not_defined if_include_test]
                   | Some if_schema \<Rightarrow>
                       bind (self_validate (root_data if_schema) (schema_tree if_schema)
                               if_data if_path strict)
                         (\<lambda>errors. include_if_branch self_validate X incs then_include
                                      else_include errors data path strict))))
      | _ \<Rightarrow> Raise AttributeError)"

definition validate_any ::
  "validate_fn \<Rightarrow> pyval option \<Rightarrow> validator \<Rightarrow> pyval \<Rightarrow> path \<Rightarrow> bool \<Rightarrow> string list outcome" where
  "validate_any self_validate root validator data path strict =
     (case validators validator of
        None \<Rightarrow> Raise AttributeError
      | Some vs \<Rightarrow>
          (if vs = [] then Return [''No validators specified for '' @ dq @ ''any'' @ dq @ ''.'']
           else
             bind (sequence (map (\<lambda>v. self_validate root (Leaf v) data path strict) vs))
               (\<lambda>errs. Return (all_failed (length vs) errs))))"

text \<open>The body of \<open>_validate\<close>, over the \<open>_validate\<close> of the calls below it.\<close>

definition validate_body :: "validate_fn \<Rightarrow> ext \<Rightarrow> registry \<Rightarrow> validate_fn" where
  "validate_body self_validate X incs root validator data path strict =
     (case validator of
        Leaf v \<Rightarrow>
          (if data = PNone \<and> is_optional v \<and> can_be_none v \<and> \<not> is_IncludeIf (kind v)
           then Return []
           else
             (let errors = validate_primitive X v data path in
              if errors \<noteq> [] then Return errors
              else
                (case kind v of
                   Include include_name v_strict \<Rightarrow>
                     validate_include self_validate incs v data path strict
                 | IncludeIf if_path if_include_test then_include else_include v_strict \<Rightarrow>
                     validate_include_if self_validate X incs root v data path strict
                 | Map vs \<Rightarrow> validate_map_list self_validate X root v data path strict
                 | List vs \<Rightarrow> validate_map_list self_validate X root v data path strict
                 | Any vs \<Rightarrow> validate_any self_validate root v data path strict
                 | Primitive \<Rightarrow> Return [])))
      | _ \<Rightarrow> validate_static_map_list self_validate X root validator data path strict)"

primrec validate_node :: "nat \<Rightarrow> ext \<Rightarrow> registry \<Rightarrow> validate_fn" where
  "validate_node 0 X incs = (\<lambda>root validator data path strict. OutOfFuel)"
| "validate_node (Suc n) X incs = validate_body (validate_node n X incs) X incs"

section \<open>A concrete environment\<close>

text \<open>
  For running the engine on concrete inputs: Python's \<open>str\<close> on the values of the model
  (a string inside a list or a map is shown between single quotes), a path rendered as
  its segments joined by a dot, a lookup that follows the segments of a
  slash-separated path through nested maps, and sets iterated in the order of insertion.
\<close>

fun str_nat :: "nat \<Rightarrow> string" where
  "str_nat n = (if n < 10 then [''0123456789'' ! n]
                else str_nat (n div 10) @ [''0123456789'' ! (n mod 10)])"

definition str_int :: "int \<Rightarrow> string" where
  "str_int i = (if i < 0 then ''-'' @ str_nat (nat (- i)) else str_nat (nat i))"

fun join :: "string \<Rightarrow> string list \<Rightarrow> string" where
  "join sep [] = []"
| "join sep [x] = x"
| "join sep (x # y # ys) = x @ sep @ join sep (y # ys)"

fun py_repr :: "pyval \<Rightarrow> string" where
  "py_repr PNone = ''None''"
| "py_repr (PInt i) = str_int i"
| "py_repr (PStr s) = sq @ s @ sq"
| "py_repr (PList xs) = ''['' @ join '', '' (map py_repr xs) @ '']''"
| "py_repr (PMap kvs) =
     ''{'' @ join '', '' (map (\<lambda>(k, v). py_repr k @ '': '' @ py_repr v) kvs) @ ''}''"

definition py_str :: "pyval \<Rightarrow> string" where
  "py_str d = (case d of PStr s \<Rightarrow> s | _ \<Rightarrow> py_repr d)"

fun walk :: "pyval \<Rightarrow> string list \<Rightarrow> pyval outcome" where
  "walk d [] = Return d"
| "walk d (seg # segs) =
     (if seg = [] then walk d segs
      else (case d of
              PMap kvs \<Rightarrow> (case map_of kvs (PStr seg) of
                             None \<Rightarrow> Raise KeyError
                           | Some v \<Rightarrow> walk v segs)
            | _ \<Rightarrow> Raise KeyError))"

definition example_ext :: ext where
  "example_ext =
     \<lparr> str_path = (\<lambda>path. join ''.'' (map py_str path)),
       str_data = py_str,
       dpath_get = (\<lambda>document if_path. walk document (split_slash if_path)),
       set_order = (\<lambda>members. members) \<rparr>"

text \<open>
  Two primitive validators for the examples: \<open>str()\<close> and \<open>int()\<close>, required and
  nullable, which accept the strings and the integers.
\<close>

definition str_validator :: validator where
  "str_validator =
     Validator False True
       (\<lambda>d. case d of PStr s \<Rightarrow> [] | _ \<Rightarrow> [sq @ py_str d @ sq @ '' is not a str.''])
       Primitive"

definition int_validator :: validator where
  "int_validator =
     Validator False True
       (\<lambda>d. case d of PInt i \<Rightarrow> [] | _ \<Rightarrow> [sq @ py_str d @ sq @ '' is not a int.''])
       Primitive"

definition no_includes :: registry where
  "no_includes = (\<lambda>name. None)"

text \<open>
  The registry and the documents of the \<open>IncludeIf\<close> examples: \<open>is_a\<close> accepts the string
  \<open>a\<close>, \<open>an_int\<close> an integer, \<open>a_str\<close> a string.
\<close>

definition a_validator :: validator where
  "a_validator =
     Validator False True
       (\<lambda>d. if d = PStr ''a'' then [] else [sq @ py_str d @ sq @ '' not in (a,)''])
       Primitive"

definition leaf_schema :: "string \<Rightarrow> validator \<Rightarrow> schema" where
  "leaf_schema name v = \<lparr> schema_name = name, schema_tree = Leaf v, root_data = None \<rparr>"

definition example_includes :: registry where
  "example_includes =
     (\<lambda>name. if name = ''is_a'' then Some (leaf_schema ''is_a'' a_validator)
             else if name = ''an_int'' then Some (leaf_schema ''an_int'' int_validator)
             else if name = ''a_str'' then Some (leaf_schema ''a_str'' str_validator)
             else None)"

definition include_if_validator :: "string option \<Rightarrow> validator" where
  "include_if_validator else_include =
     Validator False True (\<lambda>d. []) (IncludeIf ''/type'' ''is_a'' ''an_int'' else_include None)"

section \<open>The shape of an error string\<close>


section \<open>The recursion budget\<close>

text \<open>
  \<open>fuel_le f g\<close>: wherever \<open>f\<close> ends within its budget, \<open>g\<close> gives the same result.
\<close>

definition fuel_le :: "validate_fn \<Rightarrow> validate_fn \<Rightarrow> bool" where
  "fuel_le f g =
     (\<forall>root validator data path strict.
        f root validator data path strict \<noteq> OutOfFuel
        \<longrightarrow> g root validator data path strict = f root validator data path strict)"

section \<open>Errors and the paths they are reported at\<close>

text \<open>
  An error as the engine builds it: \<open>At p body\<close> is the format string applied to the path
  \<open>p\<close>, with \<open>body\<close> the text that follows the path; \<open>Bare message\<close> is a message built
  without a path. \<open>render f\<close> is the string, when \<open>f\<close> is the rendering of paths.
\<close>

datatype located_error = At path string | Bare string

fun render :: "(path \<Rightarrow> string) \<Rightarrow> located_error \<Rightarrow> string" where
  "render f (At p body) = f p @ body"
| "render f (Bare message) = message"


definition renders :: "(path \<Rightarrow> string) \<Rightarrow> located_error list outcome \<Rightarrow> string list outcome" where
  "renders f T =
     (case T of
        Return ts \<Rightarrow> Return (map (render f) ts)
      | Raise e \<Rightarrow> Raise e
      | OutOfFuel \<Rightarrow> OutOfFuel)"



section \<open>The schema objects as a store\<close>

text \<open>
  \<open>validate\<close> assigns to an attribute of the object it is called on, so the objects are kept
  in a store: the schema object that the caller holds (\<open>Top\<close>) and the objects in the
  registry, each reached by its name (\<open>add_include\<close> builds a new object for every
  name). Every method takes the store and returns it with its result; an exception
  leaves the store as it is at that moment.
\<close>

datatype ref = Top | Registered string

record store =
  top_object :: schema
  registered :: registry

fun deref :: "store \<Rightarrow> ref \<Rightarrow> schema option" where
  "deref s Top = Some (top_object s)"
| "deref s (Registered name) = registered s name"

text \<open>\<open>self._root_data\<close>; \<open>None\<close> when the attribute is not there.\<close>

definition self_root_data :: "store \<Rightarrow> ref \<Rightarrow> pyval option" where
  "self_root_data s self = (case deref s self of None \<Rightarrow> None | Some obj \<Rightarrow> root_data obj)"

text \<open>\<open>self._root_data = data\<close>.\<close>

fun set_root_data :: "ref \<Rightarrow> pyval \<Rightarrow> store \<Rightarrow> store" where
  "set_root_data Top data s = s\<lparr>top_object := (top_object s)\<lparr>root_data := Some data\<rparr>\<rparr>"
| "set_root_data (Registered name) data s =
     s\<lparr>registered := (registered s)
          (name := map_option (\<lambda>obj. obj\<lparr>root_data := Some data\<rparr>) (registered s name))\<rparr>"

type_synonym 'a action = "store \<Rightarrow> 'a outcome \<times> store"

definition st_return :: "'a \<Rightarrow> 'a action" where
  "st_return x = (\<lambda>s. (Return x, s))"

definition st_lift :: "'a outcome \<Rightarrow> 'a action" where
  "st_lift r = (\<lambda>s. (r, s))"

definition st_bind :: "'a action \<Rightarrow> ('a \<Rightarrow> 'b action) \<Rightarrow> 'b action" where
  "st_bind m k =
     (\<lambda>s. case m s of
             (Return x, s1) \<Rightarrow> k x s1
           | (Raise e, s1) \<Rightarrow> (Raise e, s1)
           | (OutOfFuel, s1) \<Rightarrow> (OutOfFuel, s1))"

fun st_sequence :: "'a action list \<Rightarrow> 'a list action" where
  "st_sequence [] = st_return []"
| "st_sequence (m # ms) = st_bind m (\<lambda>x. st_bind (st_sequence ms) (\<lambda>xs. st_return (x # xs)))"

type_synonym validate_action =
  "ref \<Rightarrow> node \<Rightarrow> pyval \<Rightarrow> path \<Rightarrow> bool \<Rightarrow> string list action"

text \<open>
  The methods of \<open>Schema\<close> once more, now on the store. \<open>self\<close> is the object the method
  runs on; \<open>self.includes\<close> and \<open>self._root_data\<close> are read from the store at the moment of
  the read.
\<close>

definition validate_item_st ::
  "validate_action \<Rightarrow> ext \<Rightarrow> ref \<Rightarrow> node \<Rightarrow> pyval \<Rightarrow> path \<Rightarrow> bool \<Rightarrow> pyval
   \<Rightarrow> string list action" where
  "validate_item_st self_validate X self validator data path0 strict key =
     (let path = path0 @ DataPath key in
      (case getitem data key of
         Return data_item \<Rightarrow> self_validate self validator data_item path strict
       | Raise e \<Rightarrow>
           (if e = KeyError \<or> e = IndexError then
              (if \<not> node_is_IncludeIf validator then
                 (if node_is_optional validator then st_return []
                  else st_return [str_path X path @ '': Required field missing''])
               else self_validate self validator PNone path strict)
            else st_lift (Raise e))
       | OutOfFuel \<Rightarrow> st_lift OutOfFuel))"

definition validate_static_map_list_st ::
  "validate_action \<Rightarrow> ext \<Rightarrow> ref \<Rightarrow> node \<Rightarrow> pyval \<Rightarrow> path \<Rightarrow> bool
   \<Rightarrow> string list action" where
  "validate_static_map_list_st self_validate X self validator data path strict =
     (if is_map_node validator \<and> \<not> is_map data then
        (if data = PNone then st_return [str_path X path @ '': Required field missing'']
         else st_return
                [str_path X path @ '' : '' @ sq @ str_data X data @ sq @ '' is not a map''])
      else if is_list_node validator \<and> \<not> is_list data then
        st_return [str_path X path @ '' : '' @ sq @ str_data X data @ sq @ '' is not a list'']
      else
        st_bind (st_lift (unexpected_elements X validator data path strict)) (\<lambda>errors.
          (case get_iter_node validator of
             None \<Rightarrow> st_lift (Raise TypeError)
           | Some items \<Rightarrow>
               st_bind (st_sequence (map (\<lambda>(key, sub_validator).
                          validate_item_st self_validate X self sub_validator data path strict
                            key) items))
                 (\<lambda>item_errors. st_return (errors @ concat item_errors)))))"

definition validate_map_list_st ::
  "validate_action \<Rightarrow> ext \<Rightarrow> ref \<Rightarrow> validator \<Rightarrow> pyval \<Rightarrow> path \<Rightarrow> bool
   \<Rightarrow> string list action" where
  "validate_map_list_st self_validate X self validator data path strict =
     (case validators validator of
        None \<Rightarrow> st_lift (Raise AttributeError)
      | Some vs \<Rightarrow>
          (if vs = [] then st_return []
           else
             (case get_keys data of
                None \<Rightarrow> st_lift (Raise TypeError)
              | Some keys \<Rightarrow>
                  st_bind (st_sequence (map (\<lambda>key.
                             st_bind (st_sequence (map (\<lambda>v.
                                        validate_item_st self_validate X self (Leaf v) data path
                                          strict key) vs))
                               (\<lambda>errs. st_return (all_failed (length vs) errs))) keys))
                    (\<lambda>key_errors. st_return (concat key_errors)))))"

definition validate_include_st ::
  "validate_action \<Rightarrow> validator \<Rightarrow> pyval \<Rightarrow> path \<Rightarrow> bool \<Rightarrow> string list action" where
  "validate_include_st self_validate validator data path strict =
     (case kind validator of
        Include include_name v_strict \<Rightarrow>
          (\<lambda>s. case registered s include_name of
                  None \<Rightarrow> (Return [not_defined include_name], s)
                | Some include_schema \<Rightarrow>
                    self_validate (Registered include_name) (schema_tree include_schema)
                      data path (case v_strict of None \<Rightarrow> strict | Some b \<Rightarrow> b) s)
      | _ \<Rightarrow> st_lift (Raise AttributeError))"

definition include_if_branch_st ::
  "validate_action \<Rightarrow> ext \<Rightarrow> string \<Rightarrow> string option \<Rightarrow> string list
   \<Rightarrow> pyval \<Rightarrow> path \<Rightarrow> bool \<Rightarrow> string list action" where
  "include_if_branch_st self_validate X then_include else_include errors data path strict =
     (case (if errors \<noteq> [] then else_include else Some then_include) of
        None \<Rightarrow>
          (if strict \<and> data \<noteq> PNone then st_return [str_path X path @ '': Unexpected element'']
           else st_return [])
      | Some include_name \<Rightarrow>
          (\<lambda>s. case registered s include_name of
                  None \<Rightarrow> (Return [not_defined include_name], s)
                | Some include_schema \<Rightarrow>
                    self_validate (Registered include_name) (schema_tree include_schema)
                      data path strict s))"

definition validate_include_if_st ::
  "validate_action \<Rightarrow> ext \<Rightarrow> ref \<Rightarrow> validator \<Rightarrow> pyval \<Rightarrow> path \<Rightarrow> bool
   \<Rightarrow> string list action" where
  "validate_include_if_st self_validate X self validator data path strict0 =
     (case kind validator of
        IncludeIf v_if_path if_include_test then_include else_include v_strict \<Rightarrow>
          (let strict = (case v_strict of None \<Rightarrow> strict0 | Some b \<Rightarrow> b);
               if_path = DataPath (PList (map PStr (split_slash v_if_path)))
           in
             (\<lambda>s. case lookup_if_data X (self_root_data s self) v_if_path strict of
                     Raise e \<Rightarrow> (Raise e, s)
                   | OutOfFuel \<Rightarrow> (OutOfFuel, s)
                   | Return (Inl errors) \<Rightarrow> (Return errors, s)
                   | Return (Inr if_data) \<Rightarrow>
                       (case registered s if_include_test of
                          None \<Rightarrow> (Return [not_defined if_include_test], s)
                        | Some if_schema \<Rightarrow>
                            st_bind (self_validate (Registered if_include_test)
                                       (schema_tree if_schema) if_data if_path strict)
                              (\<lambda>errors. include_if_branch_st self_validate X then_include
                                           else_include errors data path strict) s)))
      | _ \<Rightarrow> st_lift (Raise AttributeError))"

definition validate_any_st ::
  "validate_action \<Rightarrow> ref \<Rightarrow> validator \<Rightarrow> pyval \<Rightarrow> path \<Rightarrow> bool \<Rightarrow> string list action" where
  "validate_any_st self_validate self validator data path strict =
     (case validators validator of
        None \<Rightarrow> st_lift (Raise AttributeError)
      | Some vs \<Rightarrow>
          (if vs = []
           then st_return [''No validators specified for '' @ dq @ ''any'' @ dq @ ''.'']
           else
             st_bind (st_sequence (map (\<lambda>v. self_validate self (Leaf v) data path strict) vs))
               (\<lambda>errs. st_return (all_failed (length vs) errs))))"

definition validate_body_st :: "validate_action \<Rightarrow> ext \<Rightarrow> validate_action" where
  "validate_body_st self_validate X self validator data path strict =
     (case validator of
        Leaf v \<Rightarrow>
          (if data = PNone \<and> is_optional v \<and> can_be_none v \<and> \<not> is_IncludeIf (kind v)
           then st_return []
           else
             (let errors = validate_primitive X v data path in
              if errors \<noteq> [] then st_return errors
              else
                (case kind v of
                   Include include_name v_strict \<Rightarrow>
                     validate_include_st self_validate v data path strict
                 | IncludeIf if_path if_include_test then_include else_include v_strict \<Rightarrow>
                     validate_include_if_st self_validate X self v data path strict
                 | Map vs \<Rightarrow> validate_map_list_st self_validate X self v data path strict
                 | List vs \<Rightarrow> validate_map_list_st self_validate X self v data path strict
                 | Any vs \<Rightarrow> validate_any_st self_validate self v data path strict
                 | Primitive \<Rightarrow> st_return [])))
      | _ \<Rightarrow> validate_static_map_list_st self_validate X self validator data path strict)"

primrec validate_node_st :: "nat \<Rightarrow> ext \<Rightarrow> validate_action" where
  "validate_node_st 0 X = (\<lambda>self validator data path strict. st_lift OutOfFuel)"
| "validate_node_st (Suc n) X = validate_body_st (validate_node_st n X) X"

text \<open>
  The message of the \<open>ValueError\<close> that \<open>validate\<close> raises: the header, then every error
  after a newline and a tab.
\<close>

definition aggregate_message :: "string \<Rightarrow> string \<Rightarrow> string list \<Rightarrow> string" where
  "aggregate_message data_name name errors =
     [CHR 0x0A] @ ''Error validating data '' @ data_name @ '' with schema '' @ name
     @ concat (map (\<lambda>error. [CHR 0x0A, CHR 0x09] @ error) errors)"

text \<open>
  \<open>validate\<close>, called on the object \<open>self\<close>: it binds \<open>_root_data\<close>, runs \<open>_validate\<close> on the
  tree of the object with the empty path, and raises \<open>ValueError\<close> when there are errors.
\<close>

definition validate ::
  "nat \<Rightarrow> ext \<Rightarrow> ref \<Rightarrow> pyval \<Rightarrow> string \<Rightarrow> bool \<Rightarrow> unit action" where
  "validate n X self data data_name strict =
     (\<lambda>s0.
        let path = [];
            s = set_root_data self data s0
        in (case deref s self of
              None \<Rightarrow> (Raise AttributeError, s)
            | Some obj \<Rightarrow>
                st_bind (validate_node_st n X self (schema_tree obj) data path strict)
                  (\<lambda>errors.
                     if errors \<noteq> [] then
                       st_lift (Raise (ValueError
                                  (aggregate_message data_name (schema_name obj) errors)))
                     else st_return ()) s))"

text \<open>
  \<open>agrees s svs sv\<close>: on the store \<open>s\<close>, the method \<open>svs\<close> leaves the store as it is and
  returns what \<open>sv\<close> returns for the \<open>_root_data\<close> of the object it runs on.
\<close>

definition agrees :: "store \<Rightarrow> validate_action \<Rightarrow> validate_fn \<Rightarrow> bool" where
  "agrees s svs sv =
     (\<forall>self validator data path strict.
        svs self validator data path strict s
        = (sv (self_root_data s self) validator data path strict, s))"

text \<open>
  A registry in which the include \<open>inner\<close> holds an \<open>IncludeIf\<close>, and a top-level schema that
  includes it.
\<close>

definition nested_includes :: registry where
  "nested_includes =
     (\<lambda>name. if name = ''inner'' then Some (leaf_schema ''inner'' (include_if_validator None))
             else example_includes name)"

definition top_schema :: schema where
  "top_schema =
     \<lparr> schema_name = ''top'',
       schema_tree = CMap [(PStr ''value'',
                            Leaf (Validator False True (\<lambda>d. []) (Include ''inner'' None)))],
       root_data = None \<rparr>"

definition nested_store :: store where
  "nested_store = \<lparr> top_object = top_schema, registered = nested_includes \<rparr>"

definition leaf_store :: "validator \<Rightarrow> store" where
  "leaf_store v = \<lparr> top_object = leaf_schema ''s'' v, registered = no_includes \<rparr>"

section \<open>Helper lemmas\<close>

lemmas example_defs = example_ext_def str_validator_def int_validator_def no_includes_def
  py_str_def sq_def dq_def DataPath_def a_validator_def leaf_schema_def example_includes_def
  include_if_validator_def

lemma set_iterate_set: "set (iterate_set X elements) = set elements"
  by (auto simp add: iterate_set_def Let_def)

lemma distinct_iterate_set: "distinct (iterate_set X elements)"
  by (auto simp add: iterate_set_def Let_def)

lemma iterate_set_single: "iterate_set X [key] = [key]"
proof -
  have "set (iterate_set X [key]) = {key}" "distinct (iterate_set X [key])"
    by (simp_all add: set_iterate_set distinct_iterate_set)
  then show ?thesis
    by (metis distinct.simps(2) empty_iff empty_set insert_iff list.exhaust list.set_intros(1)
          list.set_intros(2))
qed

lemma sequence_map_Return:
  "(\<forall>x\<in>set xs. f x = Return (g x)) \<Longrightarrow> sequence (map f xs) = Return (map g xs)"
  by (induction xs) simp_all

lemma all_failed_map:
  "all_failed (length vs) (map E vs) =
     (if \<exists>u\<in>set vs. E u = [] then [] else concat (map E vs))"
proof (cases "\<exists>u\<in>set vs. E u = []")
  case True
  then obtain u where u: "u \<in> set vs" "E u = []" by blast
  then have "E u \<in> set (map E vs)" "\<not> (E u \<noteq> [])" by force+
  then have "length (filter (\<lambda>err. err \<noteq> []) (map E vs)) < length (map E vs)"
    by (rule length_filter_less)
  then show ?thesis using True by (simp add: all_failed_def)
next
  case False
  then have "filter (\<lambda>err. err \<noteq> []) (map E vs) = map E vs"
    by (auto simp add: filter_id_conv)
  then show ?thesis using False by (simp add: all_failed_def)
qed

lemma validators_kind:
  "kind v = Map vs \<or> kind v = List vs \<or> kind v = Any vs \<Longrightarrow> validators v = Some vs"
  by (cases v) auto

section \<open>A larger budget does not change a result\<close>

lemma fuel_leD:
  "fuel_le f g \<Longrightarrow> f root validator data path strict \<noteq> OutOfFuel
   \<Longrightarrow> g root validator data path strict = f root validator data path strict"
  unfolding fuel_le_def by blast

lemma bind_mono:
  assumes "bind r f \<noteq> OutOfFuel"
    and "r \<noteq> OutOfFuel \<Longrightarrow> r' = r"
    and "\<And>x. r = Return x \<Longrightarrow> f x \<noteq> OutOfFuel \<Longrightarrow> f' x = f x"
  shows "bind r' f' = bind r f"
  using assms by (cases r) auto

lemma sequence_mono:
  assumes "list_all2 (\<lambda>r r'. r \<noteq> OutOfFuel \<longrightarrow> r' = r) rs rs'"
    and "sequence rs \<noteq> OutOfFuel"
  shows "sequence rs' = sequence rs"
  using assms
proof (induction rs rs' rule: list_all2_induct)
  case Nil
  show ?case by simp
next
  case (Cons r rs r' rs')
  show ?case
  proof (cases r)
    case (Return x)
    then have "sequence rs \<noteq> OutOfFuel" using Cons.prems by (cases "sequence rs") auto
    then have "sequence rs' = sequence rs" by (rule Cons.IH)
    then show ?thesis using Return Cons.hyps(1) by simp
  next
    case (Raise e)
    then show ?thesis using Cons.hyps(1) by simp
  next
    case OutOfFuel
    then show ?thesis using Cons.prems by simp
  qed
qed

lemma sequence_map_mono:
  assumes "\<And>x. x \<in> set xs \<Longrightarrow> f x \<noteq> OutOfFuel \<Longrightarrow> g x = f x"
    and "sequence (map f xs) \<noteq> OutOfFuel"
  shows "sequence (map g xs) = sequence (map f xs)"
proof (rule sequence_mono)
  show "list_all2 (\<lambda>r r'. r \<noteq> OutOfFuel \<longrightarrow> r' = r) (map f xs) (map g xs)"
    using assms(1) by (simp add: list_all2_map1 list_all2_map2 list_all2_same)
  show "sequence (map f xs) \<noteq> OutOfFuel" by (rule assms(2))
qed

lemma validate_item_mono:
  assumes le: "fuel_le f g"
    and d: "validate_item f X root validator data path strict key \<noteq> OutOfFuel"
  shows "validate_item g X root validator data path strict key
         = validate_item f X root validator data path strict key"
  using d fuel_leD [OF le]
  by (auto simp add: validate_item_def Let_def split: outcome.splits if_splits)

lemma validate_static_map_list_mono:
  assumes le: "fuel_le f g"
    and d: "validate_static_map_list f X root validator data path strict \<noteq> OutOfFuel"
  shows "validate_static_map_list g X root validator data path strict
         = validate_static_map_list f X root validator data path strict"
proof (cases "(is_map_node validator \<and> \<not> is_map data) \<or> (is_list_node validator \<and> \<not> is_list data)")
  case True
  then show ?thesis by (auto simp add: validate_static_map_list_def)
next
  case False
  show ?thesis
  proof (cases "get_iter_node validator")
    case None
    have "\<And>h. validate_static_map_list h X root validator data path strict =
             bind (unexpected_elements X validator data path strict) (\<lambda>errors. Raise TypeError)"
      using False None by (auto simp add: validate_static_map_list_def)
    then show ?thesis by simp
  next
    case (Some items)
    let ?F = "\<lambda>h. sequence (map (\<lambda>(key, sub_validator).
                  validate_item h X root sub_validator data path strict key) items)"
    have e: "\<And>h. validate_static_map_list h X root validator data path strict =
               bind (unexpected_elements X validator data path strict)
                 (\<lambda>errors. bind (?F h) (\<lambda>item_errors. Return (errors @ concat item_errors)))"
      using False Some by (auto simp add: validate_static_map_list_def)
    show ?thesis
    proof (cases "unexpected_elements X validator data path strict")
      case (Return errors)
      then have "?F f \<noteq> OutOfFuel" using d e [of f] by (cases "?F f") auto
      then have "?F g = ?F f"
        by (intro sequence_map_mono) (auto intro: validate_item_mono [OF le])
      then show ?thesis using e [of f] e [of g] by simp
    next
      case (Raise x)
      then show ?thesis using e [of f] e [of g] by simp
    next
      case OutOfFuel
      then show ?thesis using e [of f] e [of g] by simp
    qed
  qed
qed

lemma validate_map_list_mono:
  assumes le: "fuel_le f g"
    and d: "validate_map_list f X root validator data path strict \<noteq> OutOfFuel"
  shows "validate_map_list g X root validator data path strict
         = validate_map_list f X root validator data path strict"
proof (cases "validators validator")
  case None
  then show ?thesis by (simp add: validate_map_list_def)
next
  case (Some vs)
  show ?thesis
  proof (cases "vs = [] \<or> get_keys data = None")
    case True
    then show ?thesis using Some by (auto simp add: validate_map_list_def)
  next
    case False
    then obtain keys where keys: "get_keys data = Some keys" and ne: "vs \<noteq> []" by auto
    let ?I = "\<lambda>h key. sequence (map (\<lambda>v.
                 validate_item h X root (Leaf v) data path strict key) vs)"
    let ?K = "\<lambda>h key. bind (?I h key) (\<lambda>errs. Return (all_failed (length vs) errs))"
    let ?F = "\<lambda>h. sequence (map (?K h) keys)"
    have e: "\<And>h. validate_map_list h X root validator data path strict =
               bind (?F h) (\<lambda>key_errors. Return (concat key_errors))"
      using Some keys ne by (simp add: validate_map_list_def)
    have k: "\<And>key. ?K f key \<noteq> OutOfFuel \<Longrightarrow> ?K g key = ?K f key"
    proof -
      fix key assume a: "?K f key \<noteq> OutOfFuel"
      then have "?I f key \<noteq> OutOfFuel" by (cases "?I f key") auto
      then have "?I g key = ?I f key"
        by (intro sequence_map_mono) (auto intro: validate_item_mono [OF le])
      then show "?K g key = ?K f key" by simp
    qed
    have "?F f \<noteq> OutOfFuel" using d e [of f] by (cases "?F f") auto
    then have "?F g = ?F f" by (intro sequence_map_mono) (rule k)
    then show ?thesis using e [of f] e [of g] by simp
  qed
qed

lemma validate_any_mono:
  assumes le: "fuel_le f g"
    and d: "validate_any f root validator data path strict \<noteq> OutOfFuel"
  shows "validate_any g root validator data path strict
         = validate_any f root validator data path strict"
proof (cases "validators validator")
  case None
  then show ?thesis by (simp add: validate_any_def)
next
  case (Some vs)
  show ?thesis
  proof (cases "vs = []")
    case True
    then show ?thesis using Some by (simp add: validate_any_def)
  next
    case False
    let ?F = "\<lambda>h. sequence (map (\<lambda>v. h root (Leaf v) data path strict) vs)"
    have e: "\<And>h. validate_any h root validator data path strict =
               bind (?F h) (\<lambda>errs. Return (all_failed (length vs) errs))"
      using Some False by (simp add: validate_any_def)
    have "?F f \<noteq> OutOfFuel" using d e [of f] by (cases "?F f") auto
    then have "?F g = ?F f"
      by (intro sequence_map_mono) (auto intro: fuel_leD [OF le])
    then show ?thesis using e [of f] e [of g] by simp
  qed
qed

lemma validate_include_mono:
  assumes le: "fuel_le f g"
    and d: "validate_include f incs validator data path strict \<noteq> OutOfFuel"
  shows "validate_include g incs validator data path strict
         = validate_include f incs validator data path strict"
  using d fuel_leD [OF le]
  by (auto simp add: validate_include_def split: vkind.splits option.splits)

lemma include_if_branch_mono:
  assumes le: "fuel_le f g"
    and d: "include_if_branch f X incs th el cond data path strict \<noteq> OutOfFuel"
  shows "include_if_branch g X incs th el cond data path strict
         = include_if_branch f X incs th el cond data path strict"
  using d fuel_leD [OF le]
  by (auto simp add: include_if_branch_def split: option.splits if_splits)

lemma validate_include_if_mono:
  assumes le: "fuel_le f g"
    and d: "validate_include_if f X incs root validator data path strict \<noteq> OutOfFuel"
  shows "validate_include_if g X incs root validator data path strict
         = validate_include_if f X incs root validator data path strict"
proof (cases "kind validator")
  case (IncludeIf v_if_path if_include_test then_include else_include v_strict)
  define eff where "eff = (case v_strict of None \<Rightarrow> strict | Some s \<Rightarrow> s)"
  define if_path where "if_path = DataPath (PList (map PStr (split_slash v_if_path)))"
  show ?thesis
  proof (cases "\<exists>if_data if_schema. lookup_if_data X root v_if_path eff = Return (Inr if_data)
                  \<and> incs if_include_test = Some if_schema")
    case False
    then show ?thesis using IncludeIf
      by (auto simp add: validate_include_if_def eff_def Let_def
            split: outcome.splits sum.splits option.splits)
  next
    case True
    then obtain if_data if_schema where
      l: "lookup_if_data X root v_if_path eff = Return (Inr if_data)"
      and s: "incs if_include_test = Some if_schema" by blast
    let ?C = "\<lambda>h. h (root_data if_schema) (schema_tree if_schema) if_data if_path eff"
    have e: "\<And>h. validate_include_if h X incs root validator data path strict =
               bind (?C h) (\<lambda>errors. include_if_branch h X incs then_include else_include
                                         errors data path eff)"
      using IncludeIf l s by (simp add: validate_include_if_def eff_def if_path_def Let_def)
    have "bind (?C g) (\<lambda>errors. include_if_branch g X incs then_include else_include
                                         errors data path eff)
        = bind (?C f) (\<lambda>errors. include_if_branch f X incs then_include else_include
                                         errors data path eff)"
    proof (rule bind_mono)
      show "bind (?C f) (\<lambda>errors. include_if_branch f X incs then_include else_include
                                         errors data path eff) \<noteq> OutOfFuel"
        using d e [of f] by simp
      show "?C f \<noteq> OutOfFuel \<Longrightarrow> ?C g = ?C f" by (rule fuel_leD [OF le])
      show "\<And>x. ?C f = Return x
              \<Longrightarrow> include_if_branch f X incs then_include else_include x data path eff
                    \<noteq> OutOfFuel
              \<Longrightarrow> include_if_branch g X incs then_include else_include x data path eff
                  = include_if_branch f X incs then_include else_include x data path eff"
        by (rule include_if_branch_mono [OF le])
    qed
    then show ?thesis using e [of f] e [of g] by simp
  qed
qed (simp_all add: validate_include_if_def)

lemma validate_body_mono:
  assumes le: "fuel_le f g"
  shows "fuel_le (validate_body f X incs) (validate_body g X incs)"
  unfolding fuel_le_def
proof (intro allI impI)
  fix root validator data path strict
  assume d: "validate_body f X incs root validator data path strict \<noteq> OutOfFuel"
  show "validate_body g X incs root validator data path strict
        = validate_body f X incs root validator data path strict"
  proof (cases validator)
    case (CMap kvs)
    then show ?thesis using d validate_static_map_list_mono [OF le]
      by (simp add: validate_body_def)
  next
    case (CList ns)
    then show ?thesis using d validate_static_map_list_mono [OF le]
      by (simp add: validate_body_def)
  next
    case (Leaf v)
    show ?thesis
    proof (cases "(data = PNone \<and> is_optional v \<and> can_be_none v \<and> \<not> is_IncludeIf (kind v))
                  \<or> validate_primitive X v data path \<noteq> []")
      case True
      then show ?thesis using Leaf by (auto simp add: validate_body_def Let_def)
    next
      case False
      then show ?thesis
        using d Leaf validate_include_mono [OF le] validate_include_if_mono [OF le]
          validate_map_list_mono [OF le] validate_any_mono [OF le]
        by (cases "kind v") (auto simp add: validate_body_def Let_def)
    qed
  qed
qed

lemma validate_node_Suc_mono: "fuel_le (validate_node n X incs) (validate_node (Suc n) X incs)"
proof (induction n)
  case 0
  show ?case by (simp add: fuel_le_def)
next
  case (Suc n)
  then show ?case using validate_body_mono [of "validate_node n X incs"] by simp
qed

lemma validate_node_fuel_mono:
  assumes "validate_node n X incs root validator data path strict \<noteq> OutOfFuel"
  shows "validate_node (n + k) X incs root validator data path strict
         = validate_node n X incs root validator data path strict"
proof (induction k)
  case 0
  show ?case by simp
next
  case (Suc k)
  have "validate_node (Suc (n + k)) X incs root validator data path strict
        = validate_node (n + k) X incs root validator data path strict"
    using fuel_leD [OF validate_node_Suc_mono, of "n + k" X incs root validator data path strict]
      Suc assms by simp
  then show ?case using Suc by simp
qed

section \<open>Every result is the rendering of located errors\<close>

lemma renders_simps [simp]:
  "renders f (Return ts) = Return (map (render f) ts)"
  "renders f (Raise e) = Raise e"
  "renders f OutOfFuel = OutOfFuel"
  by (simp_all add: renders_def)





















lemma iterate_set_str_path [simp]: "iterate_set (X\<lparr>str_path := f\<rparr>) ks = iterate_set X ks"
  by (simp add: iterate_set_def)

lemma lookup_if_data_str_path [simp]:
  "lookup_if_data (X\<lparr>str_path := f\<rparr>) root if_path strict = lookup_if_data X root if_path strict"
  by (cases root) (simp_all add: lookup_if_data_def)
















section \<open>The methods on the store and the methods as functions\<close>

lemma agreesD:
  "agrees s svs sv \<Longrightarrow>
   svs self validator data path strict s
   = (sv (self_root_data s self) validator data path strict, s)"
  unfolding agrees_def by blast

lemma st_bind_agree:
  assumes "m s = (r, s)" and "\<And>x. r = Return x \<Longrightarrow> k x s = (f x, s)"
  shows "st_bind m k s = (bind r f, s)"
  using assms by (cases r) (simp_all add: st_bind_def)

lemma st_bind_return_agree:
  assumes "m s = (r, s)"
  shows "st_bind m (\<lambda>x. st_return (g x)) s = (bind r (\<lambda>x. Return (g x)), s)"
  using assms by (cases r) (simp_all add: st_bind_def st_return_def)

lemma st_sequence_agree:
  assumes "\<forall>x\<in>set xs. A x s = (a x, s)"
  shows "st_sequence (map A xs) s = (sequence (map a xs), s)"
  using assms
proof (induction xs)
  case Nil
  show ?case by (simp add: st_return_def)
next
  case (Cons x xs)
  then have x: "A x s = (a x, s)" and xs: "st_sequence (map A xs) s = (sequence (map a xs), s)"
    by simp_all
  have "st_bind (A x) (\<lambda>y. st_bind (st_sequence (map A xs)) (\<lambda>ys. st_return (y # ys))) s
        = (bind (a x) (\<lambda>y. bind (sequence (map a xs)) (\<lambda>ys. Return (y # ys))), s)"
  proof (rule st_bind_agree)
    show "A x s = (a x, s)" by (rule x)
  next
    fix y
    show "st_bind (st_sequence (map A xs)) (\<lambda>ys. st_return (y # ys)) s
          = (bind (sequence (map a xs)) (\<lambda>ys. Return (y # ys)), s)"
      using xs by (rule st_bind_return_agree)
  qed
  then show ?case by simp
qed

lemma validate_item_st_agree:
  assumes "agrees s svs sv"
  shows "validate_item_st svs X self validator data path strict key s
         = (validate_item sv X (self_root_data s self) validator data path strict key, s)"
  using agreesD [OF assms]
  by (auto simp add: validate_item_st_def validate_item_def Let_def st_return_def st_lift_def
        split: outcome.splits)

lemma validate_static_map_list_st_agree:
  assumes a: "agrees s svs sv"
  shows "validate_static_map_list_st svs X self validator data path strict s
         = (validate_static_map_list sv X (self_root_data s self) validator data path strict, s)"
proof (cases "(is_map_node validator \<and> \<not> is_map data) \<or> (is_list_node validator \<and> \<not> is_list data)")
  case True
  then show ?thesis
    by (auto simp add: validate_static_map_list_st_def validate_static_map_list_def st_return_def)
next
  case False
  have "st_bind (st_lift (unexpected_elements X validator data path strict)) (\<lambda>errors.
          (case get_iter_node validator of
             None \<Rightarrow> st_lift (Raise TypeError)
           | Some items \<Rightarrow>
               st_bind (st_sequence (map (\<lambda>(key, sub_validator).
                          validate_item_st svs X self sub_validator data path strict key) items))
                 (\<lambda>item_errors. st_return (errors @ concat item_errors)))) s
        = (bind (unexpected_elements X validator data path strict) (\<lambda>errors.
          (case get_iter_node validator of
             None \<Rightarrow> Raise TypeError
           | Some items \<Rightarrow>
               bind (sequence (map (\<lambda>(key, sub_validator).
                        validate_item sv X (self_root_data s self) sub_validator data path strict
                          key) items))
                 (\<lambda>item_errors. Return (errors @ concat item_errors)))), s)"
  proof (rule st_bind_agree)
    show "st_lift (unexpected_elements X validator data path strict) s
          = (unexpected_elements X validator data path strict, s)"
      by (simp add: st_lift_def)
  next
    fix errors
    show "(case get_iter_node validator of
             None \<Rightarrow> st_lift (Raise TypeError)
           | Some items \<Rightarrow>
               st_bind (st_sequence (map (\<lambda>(key, sub_validator).
                          validate_item_st svs X self sub_validator data path strict key) items))
                 (\<lambda>item_errors. st_return (errors @ concat item_errors))) s
          = (case get_iter_node validator of
             None \<Rightarrow> Raise TypeError
           | Some items \<Rightarrow>
               bind (sequence (map (\<lambda>(key, sub_validator).
                        validate_item sv X (self_root_data s self) sub_validator data path strict
                          key) items))
                 (\<lambda>item_errors. Return (errors @ concat item_errors)), s)"
    proof (cases "get_iter_node validator")
      case None
      then show ?thesis by (simp add: st_lift_def)
    next
      case (Some items)
      have "st_sequence (map (\<lambda>(key, sub_validator).
                validate_item_st svs X self sub_validator data path strict key) items) s
            = (sequence (map (\<lambda>(key, sub_validator).
                validate_item sv X (self_root_data s self) sub_validator data path strict key)
                  items), s)"
        by (rule st_sequence_agree) (auto simp add: validate_item_st_agree [OF a])
      then have "st_bind (st_sequence (map (\<lambda>(key, sub_validator).
                validate_item_st svs X self sub_validator data path strict key) items))
              (\<lambda>item_errors. st_return (errors @ concat item_errors)) s
            = (bind (sequence (map (\<lambda>(key, sub_validator).
                validate_item sv X (self_root_data s self) sub_validator data path strict key)
                  items))
              (\<lambda>item_errors. Return (errors @ concat item_errors)), s)"
        by (rule st_bind_return_agree)
      then show ?thesis using Some by simp
    qed
  qed
  then show ?thesis using False
    by (auto simp add: validate_static_map_list_st_def validate_static_map_list_def)
qed

lemma validate_map_list_st_agree:
  assumes a: "agrees s svs sv"
  shows "validate_map_list_st svs X self validator data path strict s
         = (validate_map_list sv X (self_root_data s self) validator data path strict, s)"
proof (cases "validators validator")
  case None
  then show ?thesis by (simp add: validate_map_list_st_def validate_map_list_def st_lift_def)
next
  case (Some vs)
  show ?thesis
  proof (cases "vs = [] \<or> get_keys data = None")
    case True
    then show ?thesis using Some
      by (auto simp add: validate_map_list_st_def validate_map_list_def st_lift_def st_return_def)
  next
    case False
    then obtain keys where keys: "get_keys data = Some keys" and ne: "vs \<noteq> []" by auto
    have inner: "\<And>key. st_bind (st_sequence (map (\<lambda>v.
                      validate_item_st svs X self (Leaf v) data path strict key) vs))
                    (\<lambda>errs. st_return (all_failed (length vs) errs)) s
                 = (bind (sequence (map (\<lambda>v.
                      validate_item sv X (self_root_data s self) (Leaf v) data path strict key)
                        vs))
                    (\<lambda>errs. Return (all_failed (length vs) errs)), s)"
    proof -
      fix key
      have "st_sequence (map (\<lambda>v. validate_item_st svs X self (Leaf v) data path strict key) vs) s
            = (sequence (map (\<lambda>v. validate_item sv X (self_root_data s self) (Leaf v) data path
                                     strict key) vs), s)"
        by (rule st_sequence_agree) (simp add: validate_item_st_agree [OF a])
      then show "st_bind (st_sequence (map (\<lambda>v.
                      validate_item_st svs X self (Leaf v) data path strict key) vs))
                    (\<lambda>errs. st_return (all_failed (length vs) errs)) s
                 = (bind (sequence (map (\<lambda>v.
                      validate_item sv X (self_root_data s self) (Leaf v) data path strict key)
                        vs))
                    (\<lambda>errs. Return (all_failed (length vs) errs)), s)"
        by (rule st_bind_return_agree)
    qed
    have "st_sequence (map (\<lambda>key. st_bind (st_sequence (map (\<lambda>v.
                      validate_item_st svs X self (Leaf v) data path strict key) vs))
                    (\<lambda>errs. st_return (all_failed (length vs) errs))) keys) s
          = (sequence (map (\<lambda>key. bind (sequence (map (\<lambda>v.
                      validate_item sv X (self_root_data s self) (Leaf v) data path strict key)
                        vs))
                    (\<lambda>errs. Return (all_failed (length vs) errs))) keys), s)"
      by (rule st_sequence_agree) (simp add: inner)
    then have "st_bind (st_sequence (map (\<lambda>key. st_bind (st_sequence (map (\<lambda>v.
                      validate_item_st svs X self (Leaf v) data path strict key) vs))
                    (\<lambda>errs. st_return (all_failed (length vs) errs))) keys))
                 (\<lambda>key_errors. st_return (concat key_errors)) s
          = (bind (sequence (map (\<lambda>key. bind (sequence (map (\<lambda>v.
                      validate_item sv X (self_root_data s self) (Leaf v) data path strict key)
                        vs))
                    (\<lambda>errs. Return (all_failed (length vs) errs))) keys))
                 (\<lambda>key_errors. Return (concat key_errors)), s)"
      by (rule st_bind_return_agree)
    then show ?thesis using Some keys ne
      by (simp add: validate_map_list_st_def validate_map_list_def)
  qed
qed

lemma validate_any_st_agree:
  assumes a: "agrees s svs sv"
  shows "validate_any_st svs self validator data path strict s
         = (validate_any sv (self_root_data s self) validator data path strict, s)"
proof (cases "validators validator")
  case None
  then show ?thesis by (simp add: validate_any_st_def validate_any_def st_lift_def)
next
  case (Some vs)
  show ?thesis
  proof (cases "vs = []")
    case True
    then show ?thesis using Some
      by (simp add: validate_any_st_def validate_any_def st_return_def)
  next
    case False
    have "st_sequence (map (\<lambda>v. svs self (Leaf v) data path strict) vs) s
          = (sequence (map (\<lambda>v. sv (self_root_data s self) (Leaf v) data path strict) vs), s)"
      by (rule st_sequence_agree) (simp add: agreesD [OF a])
    then have "st_bind (st_sequence (map (\<lambda>v. svs self (Leaf v) data path strict) vs))
                 (\<lambda>errs. st_return (all_failed (length vs) errs)) s
          = (bind (sequence (map (\<lambda>v. sv (self_root_data s self) (Leaf v) data path strict) vs))
                 (\<lambda>errs. Return (all_failed (length vs) errs)), s)"
      by (rule st_bind_return_agree)
    then show ?thesis using Some False
      by (simp add: validate_any_st_def validate_any_def)
  qed
qed

lemma self_root_data_Registered:
  "registered s name = Some obj \<Longrightarrow> self_root_data s (Registered name) = root_data obj"
  by (simp add: self_root_data_def)

lemma validate_include_st_agree:
  assumes a: "agrees s svs sv"
  shows "validate_include_st svs validator data path strict s
         = (validate_include sv (registered s) validator data path strict, s)"
  using agreesD [OF a]
  by (auto simp add: validate_include_st_def validate_include_def st_lift_def
        self_root_data_Registered split: vkind.splits option.splits)

lemma include_if_branch_st_agree:
  assumes a: "agrees s svs sv"
  shows "include_if_branch_st svs X then_include else_include errors data path strict s
         = (include_if_branch sv X (registered s) then_include else_include errors data path
              strict, s)"
  using agreesD [OF a]
  by (auto simp add: include_if_branch_st_def include_if_branch_def st_return_def
        self_root_data_Registered split: option.splits)

lemma validate_include_if_st_agree:
  assumes a: "agrees s svs sv"
  shows "validate_include_if_st svs X self validator data path strict s
         = (validate_include_if sv X (registered s) (self_root_data s self) validator data path
              strict, s)"
proof (cases "kind validator")
  case (IncludeIf v_if_path if_include_test then_include else_include v_strict)
  define eff where "eff = (case v_strict of None \<Rightarrow> strict | Some b \<Rightarrow> b)"
  define if_path where "if_path = DataPath (PList (map PStr (split_slash v_if_path)))"
  show ?thesis
  proof (cases "\<exists>if_data if_schema.
                  lookup_if_data X (self_root_data s self) v_if_path eff = Return (Inr if_data)
                  \<and> registered s if_include_test = Some if_schema")
    case False
    then show ?thesis using IncludeIf
      by (auto simp add: validate_include_if_st_def validate_include_if_def eff_def Let_def
            split: outcome.splits sum.splits option.splits)
  next
    case True
    then obtain if_data if_schema where
      l: "lookup_if_data X (self_root_data s self) v_if_path eff = Return (Inr if_data)"
      and t: "registered s if_include_test = Some if_schema" by blast
    have "st_bind (svs (Registered if_include_test) (schema_tree if_schema) if_data if_path eff)
            (\<lambda>errors. include_if_branch_st svs X then_include else_include errors data path eff) s
          = (bind (sv (root_data if_schema) (schema_tree if_schema) if_data if_path eff)
               (\<lambda>errors. include_if_branch sv X (registered s) then_include else_include errors
                            data path eff), s)"
      by (rule st_bind_agree)
         (simp_all add: agreesD [OF a] self_root_data_Registered [OF t]
            include_if_branch_st_agree [OF a])
    then show ?thesis using IncludeIf l t
      by (simp add: validate_include_if_st_def validate_include_if_def eff_def if_path_def Let_def)
  qed
qed (simp_all add: validate_include_if_st_def validate_include_if_def st_lift_def)

lemma validate_body_st_agree:
  assumes a: "agrees s svs sv"
  shows "agrees s (validate_body_st svs X) (validate_body sv X (registered s))"
  unfolding agrees_def
proof (intro allI)
  fix self validator data path strict
  show "validate_body_st svs X self validator data path strict s
        = (validate_body sv X (registered s) (self_root_data s self) validator data path strict, s)"
  proof (cases validator)
    case (CMap kvs)
    then show ?thesis
      by (simp add: validate_body_st_def validate_body_def
            validate_static_map_list_st_agree [OF a])
  next
    case (CList ns)
    then show ?thesis
      by (simp add: validate_body_st_def validate_body_def
            validate_static_map_list_st_agree [OF a])
  next
    case (Leaf v)
    then show ?thesis
      by (cases "kind v")
         (simp_all add: validate_body_st_def validate_body_def Let_def st_return_def
            validate_include_st_agree [OF a] validate_include_if_st_agree [OF a]
            validate_map_list_st_agree [OF a] validate_any_st_agree [OF a])
  qed
qed

lemma validate_node_st_agree: "agrees s (validate_node_st n X) (validate_node n X (registered s))"
proof (induction n)
  case 0
  show ?case by (simp add: agrees_def st_lift_def)
next
  case (Suc n)
  then show ?case by (simp add: validate_body_st_agree)
qed

lemma validate_node_st_eq:
  "validate_node_st n X self validator data path strict s
   = (validate_node n X (registered s) (self_root_data s self) validator data path strict, s)"
  by (rule agreesD [OF validate_node_st_agree])

lemma deref_set_root_data:
  "deref (set_root_data self data s) r
   = (if r = self then map_option (\<lambda>obj. obj\<lparr>root_data := Some data\<rparr>) (deref s self)
      else deref s r)"
  by (cases self; cases r) auto

lemma validate_eq:
  assumes "deref s0 self = Some obj"
  shows "validate n X self data data_name strict s0
         = (bind (validate_node n X (registered (set_root_data self data s0)) (Some data)
                    (schema_tree obj) data [] strict)
              (\<lambda>errors. if errors \<noteq> []
                         then Raise (ValueError
                                (aggregate_message data_name (schema_name obj) errors))
                         else Return ()),
            set_root_data self data s0)"
proof -
  let ?s = "set_root_data self data s0"
  have d: "deref ?s self = Some (obj\<lparr>root_data := Some data\<rparr>)"
    using assms by (simp add: deref_set_root_data)
  then have r: "self_root_data ?s self = Some data"
    by (simp add: self_root_data_def)
  have "st_bind (validate_node_st n X self (schema_tree obj) data [] strict)
          (\<lambda>errors. if errors \<noteq> []
                     then st_lift (Raise (ValueError
                            (aggregate_message data_name (schema_name obj) errors)))
                     else st_return ()) ?s
        = (bind (validate_node n X (registered ?s) (Some data) (schema_tree obj) data [] strict)
              (\<lambda>errors. if errors \<noteq> []
                         then Raise (ValueError
                                (aggregate_message data_name (schema_name obj) errors))
                         else Return ()), ?s)"
    by (rule st_bind_agree) (simp_all add: validate_node_st_eq r st_lift_def st_return_def)
  then show ?thesis using d by (simp add: validate_def Let_def cong: if_cong)
qed

section \<open>IncludeIf on an object with a bound document\<close>

text \<open>
  On the object that \<open>validate\<close> was called on the document is bound, and
  \<open>_validate_include_if\<close> does the following, with \<open>eff\<close> the effective strict flag. A
  failed lookup of \<open>if_path\<close> gives the single error \<open>path '<if_path>' does not exist.\<close>
  under \<open>eff\<close>, and the empty map as the value to test otherwise. The errors of the test
  against \<open>if_include_test\<close> only select the branch.
\<close>

lemma include_if_on_bound_object:
  assumes k: "kind v = IncludeIf v_if_path if_include_test then_include else_include v_strict"
    and eff: "eff = (case v_strict of None \<Rightarrow> strict | Some s \<Rightarrow> s)"
  shows
   "(dpath_get X document v_if_path = Raise KeyError \<and> eff \<longrightarrow>
       validate_include_if (validate_node n X incs) X incs (Some document) v data path strict
         = Return [''path '' @ sq @ v_if_path @ sq @ '' does not exist.''])
  \<and> ((dpath_get X document v_if_path = Return if_data
       \<or> (dpath_get X document v_if_path = Raise KeyError \<and> \<not> eff \<and> if_data = PMap []))
     \<and> incs if_include_test = Some if_schema
     \<and> validate_node n X incs (root_data if_schema) (schema_tree if_schema) if_data
          (DataPath (PList (map PStr (split_slash v_if_path)))) eff = Return errors
     \<longrightarrow>
       validate_include_if (validate_node n X incs) X incs (Some document) v data path strict =
        (if errors = [] then
           (case incs then_include of
              None \<Rightarrow> Return [not_defined then_include]
            | Some include_schema \<Rightarrow>
                validate_node n X incs (root_data include_schema) (schema_tree include_schema)
                  data path eff)
         else
           (case else_include of
              None \<Rightarrow>
                (if eff \<and> data \<noteq> PNone then Return [str_path X path @ '': Unexpected element'']
                 else Return [])
            | Some include_name \<Rightarrow>
                (case incs include_name of
                   None \<Rightarrow> Return [not_defined include_name]
                 | Some include_schema \<Rightarrow>
                     validate_node n X incs (root_data include_schema)
                       (schema_tree include_schema) data path eff))))"
  using k eff
  by (auto simp add: validate_include_if_def lookup_if_data_def include_if_branch_def Let_def
        split: option.splits)

lemma include_if_on_bound_object_example:
  "kind (include_if_validator None) = IncludeIf ''/type'' ''is_a'' ''an_int'' None None
   \<and> dpath_get example_ext (PMap [(PStr ''value'', PInt 5)]) ''/type'' = Raise KeyError
   \<and> validate_include_if (validate_node 1 example_ext example_includes) example_ext
        example_includes (Some (PMap [(PStr ''value'', PInt 5)])) (include_if_validator None)
        (PInt 5) [PStr ''value''] True
      = Return [''path '/type' does not exist.'']
   \<and> dpath_get example_ext (PMap [(PStr ''type'', PStr ''b''), (PStr ''value'', PInt 5)])
        ''/type'' = Return (PStr ''b'')
   \<and> example_includes ''is_a'' = Some (leaf_schema ''is_a'' a_validator)
   \<and> validate_node 1 example_ext example_includes None (Leaf a_validator) (PStr ''b'')
        (DataPath (PList (map PStr (split_slash ''/type'')))) True
      = Return [str_path example_ext (DataPath (PList (map PStr (split_slash ''/type''))))
                @ '': '' @ sq @ ''b'' @ sq @ '' not in (a,)'']
   \<and> validate_include_if (validate_node 1 example_ext example_includes) example_ext
        example_includes
        (Some (PMap [(PStr ''type'', PStr ''b''), (PStr ''value'', PInt 5)]))
        (include_if_validator None) (PInt 5) [PStr ''value''] True
      = Return [''value: Unexpected element'']"
proof -
  have k: "kind (include_if_validator None) = IncludeIf ''/type'' ''is_a'' ''an_int'' None None"
    by (simp add: include_if_validator_def)
  have e: "True = (case (None :: bool option) of None \<Rightarrow> True | Some s \<Rightarrow> s)"
    by simp
  have l1: "dpath_get example_ext (PMap [(PStr ''value'', PInt 5)]) ''/type'' = Raise KeyError"
    by (simp add: example_ext_def)
  have l2: "dpath_get example_ext (PMap [(PStr ''type'', PStr ''b''), (PStr ''value'', PInt 5)])
        ''/type'' = Return (PStr ''b'')"
    by (simp add: example_ext_def)
  have t: "example_includes ''is_a'' = Some (leaf_schema ''is_a'' a_validator)"
    by (simp add: example_includes_def)
  have c: "validate_node 1 example_ext example_includes
        (root_data (leaf_schema ''is_a'' a_validator))
        (schema_tree (leaf_schema ''is_a'' a_validator)) (PStr ''b'')
        (DataPath (PList (map PStr (split_slash ''/type'')))) True
      = Return [str_path example_ext (DataPath (PList (map PStr (split_slash ''/type''))))
                @ '': '' @ sq @ ''b'' @ sq @ '' not in (a,)'']"
    by (simp add: validate_body_def validate_primitive_def example_defs)
  have r1: "validate_include_if (validate_node 1 example_ext example_includes) example_ext
        example_includes (Some (PMap [(PStr ''value'', PInt 5)])) (include_if_validator None)
        (PInt 5) [PStr ''value''] True
      = Return [''path '/type' does not exist.'']"
    using include_if_on_bound_object [OF k e, THEN conjunct1, of example_ext
        "PMap [(PStr ''value'', PInt 5)]" 1 example_includes "PInt 5" "[PStr ''value'']"] l1
    by (simp add: sq_def)
  have r2: "validate_include_if (validate_node 1 example_ext example_includes) example_ext
        example_includes
        (Some (PMap [(PStr ''type'', PStr ''b''), (PStr ''value'', PInt 5)]))
        (include_if_validator None) (PInt 5) [PStr ''value''] True
      = Return [''value: Unexpected element'']"
    using include_if_on_bound_object [OF k e, THEN conjunct2, of example_ext
        "PMap [(PStr ''type'', PStr ''b''), (PStr ''value'', PInt 5)]" "PStr ''b''"
        example_includes "leaf_schema ''is_a'' a_validator" 1
        "[str_path example_ext (DataPath (PList (map PStr (split_slash ''/type''))))
                @ '': '' @ sq @ ''b'' @ sq @ '' not in (a,)'']" "PInt 5" "[PStr ''value'']"] l2 t c
    by (simp add: example_ext_def py_str_def)
  from k l1 r1 l2 t c r2 show ?thesis by (simp add: leaf_schema_def)
qed

section \<open>The claims\<close>

text \<open>
  C1. An \<open>IncludeIf\<close> that is reached through an include never looks \<open>if_path\<close> up:
  \<open>validate\<close> has bound the document on the object it was called on, the include runs
  \<open>_validate\<close> on the included object, \<open>_validate_include_if\<close> reads the \<open>_root_data\<close> of that
  object, which was never bound, and the call ends with \<open>AttributeError\<close>. Here the
  top-level schema has the one key \<open>key\<close> with an include of a schema that is an
  \<open>IncludeIf\<close>, and the data has that key.
\<close>

theorem include_if_inside_include_raises:
  assumes "schema_tree (top_object st) = CMap [(key, Leaf v)]"
    and "data = PMap items" and "hashable key" and "map_of items key = Some item"
    and "kind v = Include include_name v_strict" and "check v item = []"
    and "\<not> (item = PNone \<and> is_optional v \<and> can_be_none v)"
    and "registered st include_name = Some included"
    and "schema_tree included = Leaf w" and "root_data included = None"
    and "kind w = IncludeIf if_path if_include_test then_include else_include w_strict"
    and "check w item = []"
  shows "validate_include_if (validate_node n X (registered st)) X (registered st)
           (root_data included) w item path strict = Raise AttributeError
       \<and> fst (validate (Suc (Suc (Suc n))) X Top data data_name strict st)
           = Raise AttributeError"
proof -
  have m: "validate_include_if (validate_node n X (registered st)) X (registered st)
             None w item (DataPath key) b = Raise AttributeError" for b
    using assms(11) by (simp add: validate_include_if_def lookup_if_data_def)
  have p: "validate_include_if (validate_node n X (registered st)) X (registered st)
             (root_data included) w item path strict = Raise AttributeError"
    using assms(10) assms(11) by (simp add: validate_include_if_def lookup_if_data_def)
  have w: "validate_node (Suc n) X (registered st) None (Leaf w) item (DataPath key) b
           = Raise AttributeError" for b
    using assms(11) assms(12) m by (simp add: validate_body_def validate_primitive_def)
  have v: "validate_node (Suc (Suc n)) X (registered st) (Some data) (Leaf v) item
             (DataPath key) strict = Raise AttributeError"
    using assms(5-10) w
    by (auto simp add: validate_body_def validate_primitive_def validate_include_def)
  have i: "validate_item (validate_node (Suc (Suc n)) X (registered st)) X (Some data) (Leaf v)
             data [] strict key = Raise AttributeError"
    using assms(2-4) v by (simp add: validate_item_def)
  have u: "\<exists>errors. unexpected_elements X (CMap [(key, Leaf v)]) data [] strict = Return errors"
    using assms(2) by (simp add: unexpected_elements_def)
  have t: "validate_node (Suc (Suc (Suc n))) X (registered st) (Some data)
             (CMap [(key, Leaf v)]) data [] strict = Raise AttributeError"
    using assms(2) i u by (auto simp add: validate_body_def validate_static_map_list_def)
  have d: "deref st Top = Some (top_object st)" by simp
  have "fst (validate (Suc (Suc (Suc n))) X Top data data_name strict st) = Raise AttributeError"
    using t assms(1) by (simp add: validate_eq [OF d])
  then show ?thesis using p by simp
qed

text \<open>
  The schema \<open>{value: include('inner')}\<close> with the include \<open>inner: include_if('/type',
  'is_a', 'an_int')\<close>, on the data \<open>{type: a, value: 5}\<close>.
\<close>

theorem include_if_inside_include_raises_witness:
  "schema_tree (top_object nested_store)
     = CMap [(PStr ''value'', Leaf (Validator False True (\<lambda>d. []) (Include ''inner'' None)))]
   \<and> map_of [(PStr ''type'', PStr ''a''), (PStr ''value'', PInt 5)] (PStr ''value'')
       = Some (PInt 5)
   \<and> registered nested_store ''inner'' = Some (leaf_schema ''inner'' (include_if_validator None))
   \<and> root_data (leaf_schema ''inner'' (include_if_validator None)) = None
   \<and> kind (include_if_validator None) = IncludeIf ''/type'' ''is_a'' ''an_int'' None None
   \<and> fst (validate 3 example_ext Top (PMap [(PStr ''type'', PStr ''a''), (PStr ''value'', PInt 5)])
            ''d'' False nested_store)
       = Raise AttributeError"
proof -
  have a1: "schema_tree (top_object nested_store)
     = CMap [(PStr ''value'', Leaf (Validator False True (\<lambda>d. []) (Include ''inner'' None)))]"
    by (simp add: nested_store_def top_schema_def)
  have a4: "map_of [(PStr ''type'', PStr ''a''), (PStr ''value'', PInt 5)] (PStr ''value'')
       = Some (PInt 5)"
    by simp
  have a8: "registered nested_store ''inner''
              = Some (leaf_schema ''inner'' (include_if_validator None))"
    by (simp add: nested_store_def nested_includes_def)
  have a9: "schema_tree (leaf_schema ''inner'' (include_if_validator None))
              = Leaf (include_if_validator None)"
    and a10: "root_data (leaf_schema ''inner'' (include_if_validator None)) = None"
    by (simp_all add: leaf_schema_def)
  have a11: "kind (include_if_validator None)
               = IncludeIf ''/type'' ''is_a'' ''an_int'' None None"
    and a12: "check (include_if_validator None) (PInt 5) = []"
    by (simp_all add: include_if_validator_def)
  have "fst (validate (Suc (Suc (Suc 0))) example_ext Top
               (PMap [(PStr ''type'', PStr ''a''), (PStr ''value'', PInt 5)]) ''d'' False
               nested_store)
        = Raise AttributeError"
    using include_if_inside_include_raises
            [where st = nested_store and key = "PStr ''value''"
               and v = "Validator False True (\<lambda>d. []) (Include ''inner'' None)"
               and data = "PMap [(PStr ''type'', PStr ''a''), (PStr ''value'', PInt 5)]"
               and items = "[(PStr ''type'', PStr ''a''), (PStr ''value'', PInt 5)]"
               and item = "PInt 5" and include_name = "''inner''" and v_strict = None
               and included = "leaf_schema ''inner'' (include_if_validator None)"
               and w = "include_if_validator None" and n = 0 and X = example_ext
               and path = "[]" and strict = False and data_name = "''d''"
               and if_path = "''/type''" and if_include_test = "''is_a''"
               and then_include = "''an_int''" and else_include = None and w_strict = None]
      a1 a4 a8 a9 a10 a11 a12
    by simp
  then show ?thesis using a1 a4 a8 a10 a11 by (simp add: numeral_3_eq_3)
qed

text \<open>
  C2. For a static list node the value \<open>None\<close> is not reported as
  \<open>Required field missing\<close>: the engine answers \<open><path> : 'None' is not a list\<close>, whereas the
  map node beside it answers \<open><path>: Required field missing\<close> for the same value.
\<close>

theorem static_list_none_not_required_field_missing:
  "validate_node (Suc n) X incs root (CList ns) PNone path strict =
     Return [str_path X path @ '' : '' @ sq @ str_data X PNone @ sq @ '' is not a list'']
   \<and> validate_node (Suc n) X incs root (CList ns) PNone path strict \<noteq>
     Return [str_path X path @ '': Required field missing'']
   \<and> validate_node (Suc n) X incs root (CMap kvs) PNone path strict =
     Return [str_path X path @ '': Required field missing'']"
  by (simp add: validate_body_def validate_static_map_list_def)




text \<open>
  C4. When the lookup of a declared key or index fails in \<open>_validate_item\<close>: an
  \<open>IncludeIf\<close> is validated with the value \<open>None\<close> at the key's path, and nothing else is
  emitted here; any other optional validator gives no error; anything else gives exactly
  \<open><path>: Required field missing\<close>.
\<close>

theorem missing_item_policy:
  assumes "getitem data key = Raise KeyError \<or> getitem data key = Raise IndexError"
  shows "validate_item (validate_node n X incs) X root validator data path strict key =
           (if node_is_IncludeIf validator
            then validate_node n X incs root validator PNone (path @ DataPath key) strict
            else if node_is_optional validator then Return []
            else Return [str_path X (path @ DataPath key) @ '': Required field missing''])"
  using assms by (auto simp add: validate_item_def Let_def)

theorem missing_item_policy_witness:
  "getitem (PMap []) (PStr ''a'') = Raise KeyError
   \<and> validate_item (validate_node 1 example_ext no_includes) example_ext None
        (Leaf str_validator) (PMap []) [] False (PStr ''a'')
      = Return [''a: Required field missing'']
   \<and> validate_item (validate_node 1 example_ext no_includes) example_ext None
        (Leaf (Validator True True (check str_validator) Primitive)) (PMap []) [] False
        (PStr ''a'')
      = Return []"
proof -
  have h: "getitem (PMap []) (PStr ''a'') = Raise KeyError
           \<or> getitem (PMap []) (PStr ''a'') = Raise IndexError"
    by simp
  show ?thesis
    using missing_item_policy [OF h, of 1 example_ext no_includes None "Leaf str_validator"
            "[]" False]
      missing_item_policy [OF h, of 1 example_ext no_includes None
            "Leaf (Validator True True (check str_validator) Primitive)" "[]" False]
    by (simp add: example_defs)
qed

text \<open>
  C5. A leaf validator that is optional and nullable and is not an \<open>IncludeIf\<close>
  gives no error for the value \<open>None\<close>, whatever its own check says and whatever its kind.
\<close>

theorem optional_nullable_none_skipped:
  assumes "is_optional v" and "can_be_none v" and "\<not> is_IncludeIf (kind v)"
  shows "validate_node (Suc n) X incs root (Leaf v) PNone path strict = Return []"
  using assms by (simp add: validate_body_def)

theorem optional_nullable_none_skipped_witness:
  "is_optional (Validator True True (check int_validator) Primitive)
   \<and> can_be_none (Validator True True (check int_validator) Primitive)
   \<and> \<not> is_IncludeIf (kind (Validator True True (check int_validator) Primitive))
   \<and> check int_validator PNone \<noteq> []
   \<and> validate_node (Suc 0) example_ext no_includes None
        (Leaf (Validator True True (check int_validator) Primitive)) PNone [PStr ''a''] True
      = Return []"
  using optional_nullable_none_skipped
          [of "Validator True True (check int_validator) Primitive" 0 example_ext no_includes
              None "[PStr ''a'']" True]
  by (simp add: int_validator_def)

text \<open>
  C6. For a static map node and a map as data: in strict mode the result starts
  with one \<open>Unexpected element\<close> error for each key of the data that the schema does not
  declare (each such key once), followed by the errors of the declared keys; in lenient
  mode it is the errors of the declared keys alone. For the schema \<open>{a: str()}\<close> and the
  data \<open>{a: "x", b: 1}\<close>, strict validation gives the one error \<open>b: Unexpected element\<close>
  and lenient validation gives none.
\<close>

theorem strict_unexpected_elements:
  "(\<exists>extras. distinct extras \<and> set extras = set (map fst d) - set (map fst kvs) \<and>
      validate_static_map_list (validate_node n X incs) X root (CMap kvs) (PMap d) path True =
        bind (sequence (map (\<lambda>(key, sub_validator).
                validate_item (validate_node n X incs) X root sub_validator (PMap d) path True key)
              kvs))
          (\<lambda>item_errors. Return (map (\<lambda>key. str_path X (path @ DataPath key)
                                              @ '': Unexpected element'') extras
                                  @ concat item_errors)))
   \<and> validate_static_map_list (validate_node n X incs) X root (CMap kvs) (PMap d) path False =
        bind (sequence (map (\<lambda>(key, sub_validator).
                validate_item (validate_node n X incs) X root sub_validator (PMap d) path False key)
              kvs))
          (\<lambda>item_errors. Return (concat item_errors))
   \<and> validate_node (Suc (Suc n)) X incs root (CMap [(PStr ''a'', Leaf str_validator)])
        (PMap [(PStr ''a'', PStr ''x''), (PStr ''b'', PInt 1)]) [] True
      = Return [str_path X [PStr ''b''] @ '': Unexpected element'']
   \<and> validate_node (Suc (Suc n)) X incs root (CMap [(PStr ''a'', Leaf str_validator)])
        (PMap [(PStr ''a'', PStr ''x''), (PStr ''b'', PInt 1)]) [] False
      = Return []"
proof (intro conjI)
  show "\<exists>extras. distinct extras \<and> set extras = set (map fst d) - set (map fst kvs) \<and>
      validate_static_map_list (validate_node n X incs) X root (CMap kvs) (PMap d) path True =
        bind (sequence (map (\<lambda>(key, sub_validator).
                validate_item (validate_node n X incs) X root sub_validator (PMap d) path True key)
              kvs))
          (\<lambda>item_errors. Return (map (\<lambda>key. str_path X (path @ DataPath key)
                                              @ '': Unexpected element'') extras
                                  @ concat item_errors))"
    by (rule exI [of _ "iterate_set X (filter (\<lambda>key. key \<notin> set (map fst kvs)) (map fst d))"])
       (auto simp add: validate_static_map_list_def unexpected_elements_def
          distinct_iterate_set set_iterate_set)
  show "validate_static_map_list (validate_node n X incs) X root (CMap kvs) (PMap d) path False =
        bind (sequence (map (\<lambda>(key, sub_validator).
                validate_item (validate_node n X incs) X root sub_validator (PMap d) path False key)
              kvs))
          (\<lambda>item_errors. Return (concat item_errors))"
    by (simp add: validate_static_map_list_def unexpected_elements_def)
  show "validate_node (Suc (Suc n)) X incs root (CMap [(PStr ''a'', Leaf str_validator)])
        (PMap [(PStr ''a'', PStr ''x''), (PStr ''b'', PInt 1)]) [] True
      = Return [str_path X [PStr ''b''] @ '': Unexpected element'']"
    by (simp add: validate_body_def validate_static_map_list_def unexpected_elements_def
          validate_item_def validate_primitive_def str_validator_def DataPath_def
          iterate_set_single)
  show "validate_node (Suc (Suc n)) X incs root (CMap [(PStr ''a'', Leaf str_validator)])
        (PMap [(PStr ''a'', PStr ''x''), (PStr ''b'', PInt 1)]) [] False
      = Return []"
    by (simp add: validate_body_def validate_static_map_list_def unexpected_elements_def
          validate_item_def validate_primitive_def str_validator_def DataPath_def)
qed

text \<open>
  C7. For a dynamic \<open>Map\<close> or \<open>List\<close> validator: without sub-validators there is no
  error, for any data; otherwise, when every sub-validator returns for every key of the
  data, the result is, key by key, nothing if some sub-validator gave no error and the
  concatenation of the errors of all sub-validators if each of them gave some.
\<close>

theorem dynamic_map_list_any_of_per_key:
  assumes "kind v = Map vs \<or> kind v = List vs"
  shows "(vs = [] \<longrightarrow>
            validate_map_list (validate_node n X incs) X root v data path strict = Return [])
       \<and> (vs \<noteq> [] \<and> get_keys data = Some keys
            \<and> (\<forall>key\<in>set keys. \<forall>u\<in>set vs.
                  validate_item (validate_node n X incs) X root (Leaf u) data path strict key
                    = Return (E key u)) \<longrightarrow>
            validate_map_list (validate_node n X incs) X root v data path strict =
              Return (concat (map (\<lambda>key. if \<exists>u\<in>set vs. E key u = [] then []
                                          else concat (map (E key) vs)) keys)))"
proof -
  have vs: "validators v = Some vs" using assms by (auto intro: validators_kind)
  show ?thesis
  proof (intro conjI impI)
    assume "vs = []"
    then show "validate_map_list (validate_node n X incs) X root v data path strict = Return []"
      using vs by (simp add: validate_map_list_def)
  next
    assume h: "vs \<noteq> [] \<and> get_keys data = Some keys
            \<and> (\<forall>key\<in>set keys. \<forall>u\<in>set vs.
                  validate_item (validate_node n X incs) X root (Leaf u) data path strict key
                    = Return (E key u))"
    have inner: "\<forall>key\<in>set keys.
        bind (sequence (map (\<lambda>u.
                validate_item (validate_node n X incs) X root (Leaf u) data path strict key) vs))
          (\<lambda>errs. Return (all_failed (length vs) errs))
        = Return (if \<exists>u\<in>set vs. E key u = [] then [] else concat (map (E key) vs))"
    proof
      fix key assume k: "key \<in> set keys"
      have "sequence (map (\<lambda>u.
                validate_item (validate_node n X incs) X root (Leaf u) data path strict key) vs)
            = Return (map (E key) vs)"
        using h k by (intro sequence_map_Return) blast
      then show "bind (sequence (map (\<lambda>u.
                validate_item (validate_node n X incs) X root (Leaf u) data path strict key) vs))
          (\<lambda>errs. Return (all_failed (length vs) errs))
        = Return (if \<exists>u\<in>set vs. E key u = [] then [] else concat (map (E key) vs))"
        by (simp add: all_failed_map)
    qed
    have "sequence (map (\<lambda>key.
            bind (sequence (map (\<lambda>u.
                validate_item (validate_node n X incs) X root (Leaf u) data path strict key) vs))
              (\<lambda>errs. Return (all_failed (length vs) errs))) keys)
          = Return (map (\<lambda>key. if \<exists>u\<in>set vs. E key u = [] then []
                                else concat (map (E key) vs)) keys)"
      using inner by (rule sequence_map_Return)
    then show "validate_map_list (validate_node n X incs) X root v data path strict =
              Return (concat (map (\<lambda>key. if \<exists>u\<in>set vs. E key u = [] then []
                                          else concat (map (E key) vs)) keys))"
      using vs h by (simp add: validate_map_list_def)
  qed
qed

theorem dynamic_map_list_any_of_per_key_witness:
  "kind (Validator False True (\<lambda>d. []) (Map [str_validator, int_validator]))
     = Map [str_validator, int_validator]
   \<and> get_keys (PMap [(PStr ''a'', PStr ''x''), (PStr ''b'', PNone)]) = Some [PStr ''a'', PStr ''b'']
   \<and> validate_item (validate_node 1 example_ext no_includes) example_ext None
        (Leaf str_validator) (PMap [(PStr ''a'', PStr ''x''), (PStr ''b'', PNone)]) [] False
        (PStr ''a'') = Return []
   \<and> validate_map_list (validate_node 1 example_ext no_includes) example_ext None
        (Validator False True (\<lambda>d. []) (Map [str_validator, int_validator]))
        (PMap [(PStr ''a'', PStr ''x''), (PStr ''b'', PNone)]) [] False
      = Return [''b: 'None' is not a str.'', ''b: 'None' is not a int.'']"
proof -
  define data where "data = PMap [(PStr ''a'', PStr ''x''), (PStr ''b'', PNone)]"
  define E where "E = (\<lambda>key u. validate_primitive example_ext u
                         (if key = PStr ''a'' then PStr ''x'' else PNone) (DataPath key))"
  have k: "kind (Validator False True (\<lambda>d. []) (Map [str_validator, int_validator]))
             = Map [str_validator, int_validator]
           \<or> kind (Validator False True (\<lambda>d. []) (Map [str_validator, int_validator]))
             = List [str_validator, int_validator]"
    by simp
  have g: "get_keys data = Some [PStr ''a'', PStr ''b'']"
    by (simp add: data_def)
  have i: "\<forall>key\<in>set [PStr ''a'', PStr ''b'']. \<forall>u\<in>set [str_validator, int_validator].
             validate_item (validate_node 1 example_ext no_includes) example_ext None (Leaf u)
               data [] False key = Return (E key u)"
    by (simp add: data_def E_def validate_item_def validate_body_def validate_primitive_def
          example_defs)
  have "validate_map_list (validate_node 1 example_ext no_includes) example_ext None
          (Validator False True (\<lambda>d. []) (Map [str_validator, int_validator])) data [] False
        = Return (concat (map (\<lambda>key. if \<exists>u\<in>set [str_validator, int_validator]. E key u = []
                                      then []
                                      else concat (map (E key) [str_validator, int_validator]))
                           [PStr ''a'', PStr ''b'']))"
    using dynamic_map_list_any_of_per_key [OF k, THEN conjunct2, of data
            "[PStr ''a'', PStr ''b'']" 1 example_ext no_includes None "[]" False E] g i
    by blast
  then have "validate_map_list (validate_node 1 example_ext no_includes) example_ext None
          (Validator False True (\<lambda>d. []) (Map [str_validator, int_validator])) data [] False
        = Return [''b: 'None' is not a str.'', ''b: 'None' is not a int.'']"
    by (simp add: E_def validate_primitive_def example_defs)
  moreover have "validate_item (validate_node 1 example_ext no_includes) example_ext None
        (Leaf str_validator) data [] False (PStr ''a'') = Return []"
    using i by (simp add: E_def validate_primitive_def example_defs)
  ultimately show ?thesis using g by (simp add: data_def)
qed

text \<open>
  C8. For an \<open>Any\<close> validator: without sub-validators the result is the one error
  \<open>No validators specified for "any".\<close> (double quotes around \<open>any\<close>); otherwise, when every
  sub-validator returns from the recursive check, the result is empty if some
  sub-validator gave no error and the concatenation of the errors of all of them if each
  gave some.
\<close>

theorem any_of_semantics:
  assumes "kind v = Any vs"
  shows "(vs = [] \<longrightarrow>
            validate_any (validate_node n X incs) root v data path strict =
              Return [''No validators specified for '' @ dq @ ''any'' @ dq @ ''.''])
       \<and> (vs \<noteq> []
            \<and> (\<forall>u\<in>set vs. validate_node n X incs root (Leaf u) data path strict = Return (E u))
            \<longrightarrow>
            validate_any (validate_node n X incs) root v data path strict =
              Return (if \<exists>u\<in>set vs. E u = [] then [] else concat (map E vs)))"
proof -
  have vs: "validators v = Some vs" using assms by (auto intro: validators_kind)
  show ?thesis
  proof (intro conjI impI)
    assume "vs = []"
    then show "validate_any (validate_node n X incs) root v data path strict =
              Return [''No validators specified for '' @ dq @ ''any'' @ dq @ ''.'']"
      using vs by (simp add: validate_any_def)
  next
    assume h: "vs \<noteq> []
            \<and> (\<forall>u\<in>set vs. validate_node n X incs root (Leaf u) data path strict = Return (E u))"
    then have "sequence (map (\<lambda>u. validate_node n X incs root (Leaf u) data path strict) vs)
               = Return (map E vs)"
      by (intro sequence_map_Return) blast
    then show "validate_any (validate_node n X incs) root v data path strict =
              Return (if \<exists>u\<in>set vs. E u = [] then [] else concat (map E vs))"
      using vs h by (simp add: validate_any_def all_failed_map)
  qed
qed

theorem any_of_semantics_witness:
  "kind (Validator False True (\<lambda>d. []) (Any [str_validator, int_validator]))
     = Any [str_validator, int_validator]
   \<and> validate_node 1 example_ext no_includes None (Leaf str_validator) PNone [PStr ''a''] False
      = Return [''a: 'None' is not a str.'']
   \<and> validate_node 1 example_ext no_includes None (Leaf int_validator) PNone [PStr ''a''] False
      = Return [''a: 'None' is not a int.'']
   \<and> validate_any (validate_node 1 example_ext no_includes) None
        (Validator False True (\<lambda>d. []) (Any [str_validator, int_validator])) PNone
        [PStr ''a''] False
      = Return [''a: 'None' is not a str.'', ''a: 'None' is not a int.'']
   \<and> validate_any (validate_node 1 example_ext no_includes) None
        (Validator False True (\<lambda>d. []) (Any [str_validator, int_validator])) (PInt 7)
        [PStr ''a''] False
      = Return []"
proof -
  define E where "E = (\<lambda>u. validate_primitive example_ext u PNone [PStr ''a''])"
  define F where "F = (\<lambda>u. validate_primitive example_ext u (PInt 7) [PStr ''a''])"
  have k: "kind (Validator False True (\<lambda>d. []) (Any [str_validator, int_validator]))
             = Any [str_validator, int_validator]"
    by simp
  have i: "\<forall>u\<in>set [str_validator, int_validator].
             validate_node 1 example_ext no_includes None (Leaf u) PNone [PStr ''a''] False
               = Return (E u)"
    by (simp add: E_def validate_body_def validate_primitive_def example_defs)
  have j: "\<forall>u\<in>set [str_validator, int_validator].
             validate_node 1 example_ext no_includes None (Leaf u) (PInt 7) [PStr ''a''] False
               = Return (F u)"
    by (simp add: F_def validate_body_def validate_primitive_def example_defs)
  have "validate_any (validate_node 1 example_ext no_includes) None
          (Validator False True (\<lambda>d. []) (Any [str_validator, int_validator])) PNone
          [PStr ''a''] False
        = Return (if \<exists>u\<in>set [str_validator, int_validator]. E u = [] then []
                  else concat (map E [str_validator, int_validator]))"
    using any_of_semantics [OF k, THEN conjunct2, of 1 example_ext no_includes None PNone
            "[PStr ''a'']" False E] i
    by blast
  then have r1: "validate_any (validate_node 1 example_ext no_includes) None
          (Validator False True (\<lambda>d. []) (Any [str_validator, int_validator])) PNone
          [PStr ''a''] False
        = Return [''a: 'None' is not a str.'', ''a: 'None' is not a int.'']"
    by (simp add: E_def validate_primitive_def example_defs)
  have "validate_any (validate_node 1 example_ext no_includes) None
          (Validator False True (\<lambda>d. []) (Any [str_validator, int_validator])) (PInt 7)
          [PStr ''a''] False
        = Return (if \<exists>u\<in>set [str_validator, int_validator]. F u = [] then []
                  else concat (map F [str_validator, int_validator]))"
    using any_of_semantics [OF k, THEN conjunct2, of 1 example_ext no_includes None "PInt 7"
            "[PStr ''a'']" False F] j
    by blast
  then have r2: "validate_any (validate_node 1 example_ext no_includes) None
          (Validator False True (\<lambda>d. []) (Any [str_validator, int_validator])) (PInt 7)
          [PStr ''a''] False
        = Return []"
    by (simp add: F_def validate_primitive_def example_defs)
  from i r1 r2 show ?thesis
    by (simp add: E_def validate_primitive_def example_defs)
qed

text \<open>The message of the empty \<open>any\<close> is not the one with single quotes.\<close>

theorem any_message_counterexample:
  "validate_node (Suc 0) example_ext no_includes None
     (Leaf (Validator False True (\<lambda>d. []) (Any []))) (PInt 1) [PStr ''a''] False
   = Return [''No validators specified for '' @ dq @ ''any'' @ dq @ ''.'']
   \<and> validate_node (Suc 0) example_ext no_includes None
     (Leaf (Validator False True (\<lambda>d. []) (Any []))) (PInt 1) [PStr ''a''] False
   \<noteq> Return [''No validators specified for 'any'.'']"
  by (simp add: validate_body_def validate_primitive_def validate_any_def dq_def)

text \<open>
  C9. A call of \<open>validate\<close> on an object of the store leaves every tree, every name and
  the set of registered names as they were, and leaves every other object as it was; it
  leaves the document bound on the object it was called on, where the binding stays
  when the call ends. Its result is the result of the recursive validation: no error
  list gives a normal return, a list of errors gives the \<open>ValueError\<close> with the
  aggregate message of exactly these errors, and an exception of the recursion passes
  through.
\<close>

theorem validate_effects:
  assumes "validate n X self data data_name strict s0 = (result, s1)"
    and "deref s0 self = Some obj"
  shows "(\<forall>r. map_option schema_tree (deref s1 r) = map_option schema_tree (deref s0 r))
       \<and> (\<forall>r. map_option schema_name (deref s1 r) = map_option schema_name (deref s0 r))
       \<and> (\<forall>name. (registered s1 name = None) = (registered s0 name = None))
       \<and> (\<forall>r. r \<noteq> self \<longrightarrow> deref s1 r = deref s0 r)
       \<and> deref s1 self = Some (obj\<lparr>root_data := Some data\<rparr>)
       \<and> result =
           (case validate_node n X (registered s1) (Some data) (schema_tree obj) data [] strict of
              Return errors \<Rightarrow>
                (if errors = [] then Return ()
                 else Raise (ValueError (aggregate_message data_name (schema_name obj) errors)))
            | Raise e \<Rightarrow> Raise e
            | OutOfFuel \<Rightarrow> OutOfFuel)"
proof -
  have "(result, s1)
        = (bind (validate_node n X (registered (set_root_data self data s0))
                   (Some data) (schema_tree obj) data [] strict)
             (\<lambda>errors. if errors \<noteq> []
                        then Raise (ValueError
                               (aggregate_message data_name (schema_name obj) errors))
                        else Return ()),
           set_root_data self data s0)"
    unfolding assms(1) [symmetric] by (rule validate_eq [OF assms(2)])
  then have s1: "s1 = set_root_data self data s0"
    and r: "result = bind (validate_node n X (registered (set_root_data self data s0))
                             (Some data) (schema_tree obj) data [] strict)
                       (\<lambda>errors. if errors \<noteq> []
                                  then Raise (ValueError
                                         (aggregate_message data_name (schema_name obj) errors))
                                  else Return ())"
    by simp_all
  have d: "\<And>r. deref s1 r
              = (if r = self then map_option (\<lambda>obj. obj\<lparr>root_data := Some data\<rparr>) (deref s0 self)
                 else deref s0 r)"
    unfolding s1 by (rule deref_set_root_data)
  have t: "\<forall>r. map_option schema_tree (deref s1 r) = map_option schema_tree (deref s0 r)"
    by (simp add: d option.map_comp comp_def)
  have m: "\<forall>r. map_option schema_name (deref s1 r) = map_option schema_name (deref s0 r)"
    by (simp add: d option.map_comp comp_def)
  have k: "\<forall>name. (registered s1 name = None) = (registered s0 name = None)"
  proof
    fix name
    show "(registered s1 name = None) = (registered s0 name = None)"
      using d [of "Registered name"] by (cases "Registered name = self") auto
  qed
  have o: "\<forall>r. r \<noteq> self \<longrightarrow> deref s1 r = deref s0 r"
    by (simp add: d)
  have b: "deref s1 self = Some (obj\<lparr>root_data := Some data\<rparr>)"
    using assms(2) by (simp add: d)
  have c: "result =
           (case validate_node n X (registered s1) (Some data) (schema_tree obj) data [] strict of
              Return errors \<Rightarrow>
                (if errors = [] then Return ()
                 else Raise (ValueError (aggregate_message data_name (schema_name obj) errors)))
            | Raise e \<Rightarrow> Raise e
            | OutOfFuel \<Rightarrow> OutOfFuel)"
    unfolding r s1
    by (cases "validate_node n X (registered (set_root_data self data s0)) (Some data)
                 (schema_tree obj) data [] strict") simp_all
  from t m k o b c show ?thesis by blast
qed

theorem validate_effects_witness:
  "validate 1 example_ext Top (PInt 1) ''d'' False (leaf_store str_validator)
     = (Raise (ValueError (aggregate_message ''d'' ''s'' ['': '1' is not a str.''])),
        set_root_data Top (PInt 1) (leaf_store str_validator))
   \<and> deref (leaf_store str_validator) Top = Some (leaf_schema ''s'' str_validator)
   \<and> deref (set_root_data Top (PInt 1) (leaf_store str_validator)) Top
       = Some ((leaf_schema ''s'' str_validator)\<lparr>root_data := Some (PInt 1)\<rparr>)
   \<and> registered (set_root_data Top (PInt 1) (leaf_store str_validator)) = no_includes
   \<and> validate_node 1 example_ext no_includes (Some (PInt 1)) (Leaf str_validator) (PInt 1) []
        False
       = Return ['': '1' is not a str.'']"
proof -
  have d: "deref (leaf_store str_validator) Top = Some (leaf_schema ''s'' str_validator)"
    by (simp add: leaf_store_def)
  have g: "registered (set_root_data Top (PInt 1) (leaf_store str_validator)) = no_includes"
    by (simp add: leaf_store_def)
  have e: "validate_node 1 example_ext no_includes (Some (PInt 1)) (Leaf str_validator) (PInt 1)
             [] False
           = Return ['': '1' is not a str.'']"
    by (simp add: validate_body_def validate_primitive_def str_int_def example_defs)
  obtain result s1 where
    v: "validate 1 example_ext Top (PInt 1) ''d'' False (leaf_store str_validator) = (result, s1)"
    by (cases "validate 1 example_ext Top (PInt 1) ''d'' False (leaf_store str_validator)")
  from validate_effects [OF v d]
  have b: "deref s1 Top = Some ((leaf_schema ''s'' str_validator)\<lparr>root_data := Some (PInt 1)\<rparr>)"
    and o: "\<forall>r. r \<noteq> Top \<longrightarrow> deref s1 r = deref (leaf_store str_validator) r"
    and c: "result =
           (case validate_node 1 example_ext (registered s1) (Some (PInt 1))
                   (schema_tree (leaf_schema ''s'' str_validator)) (PInt 1) [] False of
              Return errors \<Rightarrow>
                (if errors = [] then Return ()
                 else Raise (ValueError
                        (aggregate_message ''d'' (schema_name (leaf_schema ''s'' str_validator))
                           errors)))
            | Raise e \<Rightarrow> Raise e
            | OutOfFuel \<Rightarrow> OutOfFuel)"
    by blast+
  have "registered s1 = registered (leaf_store str_validator)"
  proof
    fix name
    show "registered s1 name = registered (leaf_store str_validator) name"
      using o [rule_format, of "Registered name"] by simp
  qed
  then have g1: "registered s1 = no_includes" by (simp add: leaf_store_def)
  have s: "s1 = set_root_data Top (PInt 1) (leaf_store str_validator)"
    using b g1 by (cases s1) (simp add: leaf_store_def)
  have "result = Raise (ValueError (aggregate_message ''d'' ''s'' ['': '1' is not a str.'']))"
    using c e g1 by (simp add: leaf_schema_def)
  then show ?thesis using v s d b g e by simp
qed

text \<open>
  After a call that returned, the schema object still holds the document of the call.
\<close>

theorem root_data_persists_counterexample:
  "self_root_data (leaf_store str_validator) Top = None
   \<and> fst (validate 1 example_ext Top (PStr ''x'') ''d'' False (leaf_store str_validator))
       = Return ()
   \<and> self_root_data
        (snd (validate 1 example_ext Top (PStr ''x'') ''d'' False (leaf_store str_validator)))
        Top
       = Some (PStr ''x'')"
proof -
  have d: "deref (leaf_store str_validator) Top = Some (leaf_schema ''s'' str_validator)"
    by (simp add: leaf_store_def)
  show ?thesis
    unfolding validate_eq [OF d]
    by (simp add: self_root_data_def leaf_store_def validate_body_def validate_primitive_def
          example_defs)
qed

text \<open>
  C10. When the declared child of a static node is itself a literal map or
  list and the lookup of its key or index fails, the result is exactly
  \<open><path>: Required field missing\<close>.
\<close>

theorem nested_literal_never_optional:
  assumes "getitem data key = Raise KeyError \<or> getitem data key = Raise IndexError"
    and "is_map_node validator \<or> is_list_node validator"
  shows "validate_item (validate_node n X incs) X root validator data path strict key =
           Return [str_path X (path @ DataPath key) @ '': Required field missing'']"
  using assms by (cases validator) (auto simp add: validate_item_def Let_def)

theorem nested_literal_never_optional_witness:
  "getitem (PList []) (PInt 0) = Raise IndexError
   \<and> is_list_node (CList [Leaf str_validator])
   \<and> validate_item (validate_node 1 example_ext no_includes) example_ext None
        (CList [Leaf str_validator]) (PList []) [PStr ''a''] False (PInt 0)
      = Return [''a.0: Required field missing'']"
proof -
  have h: "getitem (PList []) (PInt 0) = Raise KeyError
           \<or> getitem (PList []) (PInt 0) = Raise IndexError"
    by (simp add: index_list_def)
  have l: "is_map_node (CList [Leaf str_validator]) \<or> is_list_node (CList [Leaf str_validator])"
    by simp
  show ?thesis
    using nested_literal_never_optional [OF h l, of 1 example_ext no_includes None
            "[PStr ''a'']" False]
    by (simp add: example_defs index_list_def str_int_def)
qed

end
